theory Spec2Isabelle
  imports Main "HOL-Library.Multiset" "HOL-Library.Char_ord" "HOL-Library.List_Lexorder"
    "HOL-Library.Product_Lexorder"
begin

text \<open>
  A model of the task manager's core: the task entity and its validation, the SQLite
  storage initializer with its migrations, the task repository and the task service.
  Every function takes the world it runs in (the database, the system clock, the source
  of identifiers, the statements sent to the engine so far) and returns the world it
  leaves.  The engine is given the meaning of each SQL statement the program sends, on
  tables held as lists of rows; it fails when a table is missing or a constraint of the
  schema is violated, and failures of the file system or of the connection are outside
  the model.  Calls of the logger and the \<^verbatim>\<open>context.Context\<close> argument have no effect on
  results and are left out.
\<close>

section \<open>Domain: tasks, filters, errors (internal/domain)\<close>

text \<open>
  A \<^verbatim>\<open>time.Time\<close> value: its instant on the time line, in nanoseconds, and the offset
  from UTC of the location it carries, in minutes east.  \<^verbatim>\<open>time.Now\<close> returns a time in
  the local zone of the process.  Comparing two times (\<^verbatim>\<open>Before\<close>, \<^verbatim>\<open>After\<close>) compares
  their instants, whatever the offsets; that is the order \<open>\<le>\<close> and \<open><\<close> on \<open>time\<close>.
\<close>

datatype time = Time (instant: int) (zone_offset: int)

instantiation time :: ord
begin

definition less_eq_time :: "time \<Rightarrow> time \<Rightarrow> bool" where
  "less_eq_time a b = (instant a \<le> instant b)"

definition less_time :: "time \<Rightarrow> time \<Rightarrow> bool" where
  "less_time a b = (instant a < instant b)"

instance ..

end

text \<open>\<^verbatim>\<open>type TaskStatus string\<close> and \<^verbatim>\<open>type TaskPriority string\<close>: any string is a value
  of the type; the constants name the enumerated literals.\<close>

type_synonym TaskStatus = string
type_synonym TaskPriority = string

definition TaskStatusPending :: TaskStatus where
  "TaskStatusPending = ''pending''"

definition TaskStatusCompleted :: TaskStatus where
  "TaskStatusCompleted = ''completed''"

definition TaskPriorityLow :: TaskPriority where
  "TaskPriorityLow = ''low''"

definition TaskPriorityMedium :: TaskPriority where
  "TaskPriorityMedium = ''medium''"

definition TaskPriorityHigh :: TaskPriority where
  "TaskPriorityHigh = ''high''"

record Task =
  ID :: string
  Title :: string
  Description :: string
  Status :: TaskStatus
  Priority :: TaskPriority
  CreatedAt :: time
  UpdatedAt :: time
  CompletedAt :: "time option"

text \<open>The four optional predicates of \<^verbatim>\<open>TaskFilter\<close>; a nil pointer is \<open>None\<close>.\<close>

record TaskFilter =
  FilterStatus :: "TaskStatus option"
  FilterPriority :: "TaskPriority option"
  FromDate :: "time option"
  ToDate :: "time option"

text \<open>Errors reported by the database engine for the statements the program sends.\<close>

datatype SqliteError = NoSuchTable | ConstraintCheck | ConstraintPrimaryKey

text \<open>
  Go error values: the three sentinels of the domain package, an \<^verbatim>\<open>errors.New\<close> value
  made on the spot, an error of the driver, and \<^verbatim>\<open>fmt.Errorf("...: %w", err)\<close>, which
  wraps its cause.
\<close>

datatype error =
    ErrTaskNotFound
  | ErrInvalidTaskID
  | ErrDuplicateTask
  | ErrorsNew string
  | DriverError SqliteError
  | Errorf string error

text \<open>\<^verbatim>\<open>errors.Is\<close>: the target is the error itself or is reached by unwrapping.\<close>

fun errors_Is :: "error \<Rightarrow> error \<Rightarrow> bool" where
  "errors_Is (Errorf msg cause) target = (Errorf msg cause = target \<or> errors_Is cause target)"
| "errors_Is e target = (e = target)"

text \<open>\<^verbatim>\<open>Task.Validate\<close>: \<open>None\<close> is the nil error.\<close>

definition Validate :: "Task \<Rightarrow> error option" where
  "Validate t =
     (if Title t = '''' then Some (ErrorsNew ''task title cannot be empty'')
      else if Status t \<noteq> TaskStatusPending \<and> Status t \<noteq> TaskStatusCompleted
        then Some (ErrorsNew ''invalid task status'')
      else if Priority t \<noteq> TaskPriorityLow \<and> Priority t \<noteq> TaskPriorityMedium
              \<and> Priority t \<noteq> TaskPriorityHigh
        then Some (ErrorsNew ''invalid task priority'')
      else None)"

section \<open>The embedded database\<close>

text \<open>
  The database file holds the \<^verbatim>\<open>tasks\<close> table, its indexes and the \<^verbatim>\<open>migrations\<close>
  ledger.  A table that has not been created is \<open>None\<close>.  A row of \<^verbatim>\<open>tasks\<close> has the
  columns of the schema, which are the fields of \<^typ>\<open>Task\<close>; rows are kept in insertion
  order.
\<close>

record Migration =
  version :: string
  applied_at :: time

record Database =
  tasks_tbl :: "Task list option"
  indexes :: "(string \<times> string) list"
  migrations_tbl :: "Migration list option"

text \<open>Every statement the program sends to the engine, in the order sent.\<close>

datatype Stmt =
    CreateMigrationsTable
  | SelectVersions
  | BeginTx
  | ExecMigration string
  | InsertMigration string
  | Commit
  | Rollback
  | InsertTask string
  | SelectTaskByID string
  | SelectTasks TaskFilter
  | UpdateTaskRow string
  | DeleteTaskRow string

text \<open>
  The world a call runs in: the database, the system clock (\<open>clock w k\<close> is the reading
  returned by the \<open>k\<close>-th call of \<^verbatim>\<open>time.Now\<close>), the source of fresh identifiers
  (\<open>uuids w k\<close> is the \<open>k\<close>-th \<^verbatim>\<open>uuid.New().String()\<close>), and the statements sent so far.
\<close>

record World =
  db :: Database
  clock :: "nat \<Rightarrow> time"
  ticks :: nat
  uuids :: "nat \<Rightarrow> string"
  drawn :: nat
  trace :: "Stmt list"

definition time_Now :: "World \<Rightarrow> time \<times> World" where
  "time_Now w = (clock w (ticks w), w\<lparr>ticks := Suc (ticks w)\<rparr>)"

definition uuid_New :: "World \<Rightarrow> string \<times> World" where
  "uuid_New w = (uuids w (drawn w), w\<lparr>drawn := Suc (drawn w)\<rparr>)"

definition send :: "Stmt \<Rightarrow> World \<Rightarrow> World" where
  "send s w = w\<lparr>trace := trace w @ [s]\<rparr>"

subsection \<open>How the driver stores a time\<close>

text \<open>
  The driver binds a \<^verbatim>\<open>time.Time\<close> argument as text, formatted with the layout
  \<^verbatim>\<open>2006-01-02 15:04:05.999999999-07:00\<close>: the wall-clock date and time in the value's
  own location, the fraction of the second without trailing zeros (nothing when it is
  zero), and the offset of the location.  The \<^verbatim>\<open>DATETIME\<close> columns keep that text, and the
  engine compares two such texts byte by byte.  Reading the column back parses the text
  into the same instant with the same offset.

  The first nineteen characters have a fixed width (for years of four digits), so their
  order is the order of the wall-clock second they denote; \<open>sqlite_text\<close> keeps that
  second as a number and the rest of the text as a string, and pairs are compared first
  by the second, then by the string.
\<close>

definition digit :: "int \<Rightarrow> char" where
  "digit d = ''0123456789'' ! nat (d mod 10)"

definition digits2 :: "int \<Rightarrow> string" where
  "digits2 n = [digit (n div 10), digit n]"

definition digits9 :: "int \<Rightarrow> string" where
  "digits9 n =
     [digit (n div 100000000), digit (n div 10000000), digit (n div 1000000),
      digit (n div 100000), digit (n div 10000), digit (n div 1000),
      digit (n div 100), digit (n div 10), digit n]"

text \<open>The fraction of the second, for a number of nanoseconds below one second.\<close>

definition fraction_text :: "int \<Rightarrow> string" where
  "fraction_text n =
     (if n = 0 then ''''
      else CHR ''.'' # rev (dropWhile (\<lambda>c. c = CHR ''0'') (rev (digits9 n))))"

text \<open>The offset, given in minutes: sign, hours, colon, minutes.\<close>

definition offset_text :: "int \<Rightarrow> string" where
  "offset_text m =
     (if m < 0 then ''-'' else ''+'')
     @ digits2 (\<bar>m\<bar> div 60) @ '':'' @ digits2 (\<bar>m\<bar> mod 60)"

definition sqlite_text :: "time \<Rightarrow> int \<times> string" where
  "sqlite_text t =
     ((instant t + zone_offset t * 60000000000) div 1000000000,
      fraction_text (instant t mod 1000000000) @ offset_text (zone_offset t))"

subsection \<open>What the engine does with each statement\<close>

text \<open>The two \<^verbatim>\<open>CHECK\<close> clauses of the \<^verbatim>\<open>tasks\<close> schema.\<close>

definition check_clauses :: "Task \<Rightarrow> bool" where
  "check_clauses t =
     ((Status t = ''pending'' \<or> Status t = ''completed'')
      \<and> (Priority t = ''low'' \<or> Priority t = ''medium'' \<or> Priority t = ''high''))"

text \<open>\<^verbatim>\<open>INSERT INTO tasks (...) VALUES (...)\<close>: the \<^verbatim>\<open>CHECK\<close> clauses, then the primary key.\<close>

definition sql_insert_task :: "Database \<Rightarrow> Task \<Rightarrow> SqliteError + Database" where
  "sql_insert_task d t =
     (case tasks_tbl d of
        None \<Rightarrow> Inl NoSuchTable
      | Some rows \<Rightarrow>
          if \<not> check_clauses t then Inl ConstraintCheck
          else if ID t \<in> set (map ID rows) then Inl ConstraintPrimaryKey
          else Inr (d\<lparr>tasks_tbl := Some (rows @ [t])\<rparr>))"

text \<open>\<^verbatim>\<open>SELECT ... FROM tasks WHERE id = ?\<close>, read with \<^verbatim>\<open>QueryRow\<close>: the first row, if any.\<close>

definition sql_select_task :: "Database \<Rightarrow> string \<Rightarrow> SqliteError + Task option" where
  "sql_select_task d i =
     (case tasks_tbl d of
        None \<Rightarrow> Inl NoSuchTable
      | Some rows \<Rightarrow> Inr (find (\<lambda>r. ID r = i) rows))"

text \<open>The \<^verbatim>\<open>WHERE 1=1 AND ...\<close> clause that \<^verbatim>\<open>List\<close> builds: one conjunct for each filter
  field that is set.  The two bounds on \<^verbatim>\<open>created_at\<close> compare the text stored in the
  column with the text of the bound.\<close>

definition where_clause :: "TaskFilter \<Rightarrow> Task \<Rightarrow> bool" where
  "where_clause f r =
     ((case FilterStatus f of None \<Rightarrow> True | Some s \<Rightarrow> Status r = s)
      \<and> (case FilterPriority f of None \<Rightarrow> True | Some p \<Rightarrow> Priority r = p)
      \<and> (case FromDate f of None \<Rightarrow> True
          | Some a \<Rightarrow> sqlite_text (CreatedAt r) \<ge> sqlite_text a)
      \<and> (case ToDate f of None \<Rightarrow> True
          | Some b \<Rightarrow> sqlite_text (CreatedAt r) \<le> sqlite_text b))"

text \<open>\<^verbatim>\<open>SELECT ... FROM tasks WHERE ... ORDER BY created_at DESC\<close>: the matching rows by
  descending stored text of \<^verbatim>\<open>created_at\<close>.  Rows with equal texts come latest inserted
  first, as a backward scan of the index on \<^verbatim>\<open>created_at\<close> yields them.\<close>

definition sql_select_tasks :: "Database \<Rightarrow> TaskFilter \<Rightarrow> SqliteError + Task list" where
  "sql_select_tasks d f =
     (case tasks_tbl d of
        None \<Rightarrow> Inl NoSuchTable
      | Some rows \<Rightarrow>
          Inr (rev (sort_key (\<lambda>r. sqlite_text (CreatedAt r)) (filter (where_clause f) rows))))"

text \<open>\<^verbatim>\<open>UPDATE tasks SET title = ?, description = ?, status = ?, priority = ?,
  updated_at = ?, completed_at = ? WHERE id = ?\<close>: the six columns of every row with that
  id are overwritten; \<^verbatim>\<open>id\<close> and \<^verbatim>\<open>created_at\<close> are not assigned.  The \<^verbatim>\<open>CHECK\<close> clauses
  are evaluated on the rows written.  The result carries the number of rows affected.\<close>

definition set_columns :: "Task \<Rightarrow> Task \<Rightarrow> Task" where
  "set_columns t r =
     r\<lparr>Title := Title t, Description := Description t, Status := Status t,
       Priority := Priority t, UpdatedAt := UpdatedAt t, CompletedAt := CompletedAt t\<rparr>"

definition sql_update_task :: "Database \<Rightarrow> Task \<Rightarrow> SqliteError + (nat \<times> Database)" where
  "sql_update_task d t =
     (case tasks_tbl d of
        None \<Rightarrow> Inl NoSuchTable
      | Some rows \<Rightarrow>
          let n = length (filter (\<lambda>r. ID r = ID t) rows) in
          if n > 0 \<and> \<not> check_clauses t then Inl ConstraintCheck
          else Inr (n, d\<lparr>tasks_tbl :=
                 Some (map (\<lambda>r. if ID r = ID t then set_columns t r else r) rows)\<rparr>))"

text \<open>\<^verbatim>\<open>DELETE FROM tasks WHERE id = ?\<close>, with the number of rows affected.\<close>

definition sql_delete_task :: "Database \<Rightarrow> string \<Rightarrow> SqliteError + (nat \<times> Database)" where
  "sql_delete_task d i =
     (case tasks_tbl d of
        None \<Rightarrow> Inl NoSuchTable
      | Some rows \<Rightarrow>
          Inr (length (filter (\<lambda>r. ID r = i) rows),
               d\<lparr>tasks_tbl := Some (filter (\<lambda>r. ID r \<noteq> i) rows)\<rparr>))"

section \<open>Task store (SQLiteTaskRepository)\<close>

text \<open>
  A Go function returning \<^verbatim>\<open>error\<close> returns \<open>error option\<close> (\<open>None\<close> is nil); one returning
  \<^verbatim>\<open>(T, error)\<close> returns \<open>error + T\<close>.  Each takes the world and returns the world it
  leaves.
\<close>

definition Create :: "World \<Rightarrow> Task \<Rightarrow> error option \<times> World" where
  "Create w task =
     (let w1 = send (InsertTask (ID task)) w in
      case sql_insert_task (db w1) task of
        Inl e \<Rightarrow> (Some (Errorf ''failed to create task'' (DriverError e)), w1)
      | Inr d \<Rightarrow> (None, w1\<lparr>db := d\<rparr>))"

definition GetByID :: "World \<Rightarrow> string \<Rightarrow> (error + Task) \<times> World" where
  "GetByID w i =
     (let w1 = send (SelectTaskByID i) w in
      case sql_select_task (db w1) i of
        Inl e \<Rightarrow> (Inl (Errorf ''failed to get task'' (DriverError e)), w1)
      | Inr None \<Rightarrow> (Inl ErrTaskNotFound, w1)
      | Inr (Some task) \<Rightarrow> (Inr task, w1))"

definition List :: "World \<Rightarrow> TaskFilter \<Rightarrow> (error + Task list) \<times> World" where
  "List w f =
     (let w1 = send (SelectTasks f) w in
      case sql_select_tasks (db w1) f of
        Inl e \<Rightarrow> (Inl (Errorf ''failed to list tasks'' (DriverError e)), w1)
      | Inr rows \<Rightarrow> (Inr rows, w1))"

text \<open>The second half of \<^verbatim>\<open>Update\<close>: the write and the test of the rows affected.\<close>

definition Update_write :: "World \<Rightarrow> Task \<Rightarrow> error option \<times> World" where
  "Update_write w task =
     (let w1 = send (UpdateTaskRow (ID task)) w in
      case sql_update_task (db w1) task of
        Inl e \<Rightarrow> (Some (Errorf ''failed to update task'' (DriverError e)), w1)
      | Inr (rowsAffected, d) \<Rightarrow>
          if rowsAffected = 0 then (Some ErrTaskNotFound, w1\<lparr>db := d\<rparr>)
          else (None, w1\<lparr>db := d\<rparr>))"

text \<open>\<^verbatim>\<open>Update\<close>: the existence check through \<^verbatim>\<open>GetByID\<close>, then the write.  \<^verbatim>\<open>GetByID\<close>
  never returns a nil task with a nil error, so the test \<^verbatim>\<open>existing == nil\<close> has no case
  here.\<close>

definition Update :: "World \<Rightarrow> Task \<Rightarrow> error option \<times> World" where
  "Update w task =
     (case GetByID w (ID task) of
        (Inl err, w1) \<Rightarrow> (Some err, w1)
      | (Inr existing, w1) \<Rightarrow> Update_write w1 task)"

definition Delete :: "World \<Rightarrow> string \<Rightarrow> error option \<times> World" where
  "Delete w i =
     (let w1 = send (DeleteTaskRow i) w in
      case sql_delete_task (db w1) i of
        Inl e \<Rightarrow> (Some (Errorf ''failed to delete task'' (DriverError e)), w1)
      | Inr (rowsAffected, d) \<Rightarrow>
          if rowsAffected = 0 then (Some ErrTaskNotFound, w1\<lparr>db := d\<rparr>)
          else (None, w1\<lparr>db := d\<rparr>))"

section \<open>Task service (TaskService)\<close>

text \<open>\<^verbatim>\<open>Task.MarkCompleted\<close>: one reading of the clock, stored in both fields.\<close>

definition MarkCompleted :: "World \<Rightarrow> Task \<Rightarrow> Task \<times> World" where
  "MarkCompleted w t =
     (case time_Now w of
        (now, w1) \<Rightarrow>
          (t\<lparr>Status := TaskStatusCompleted, CompletedAt := Some now, UpdatedAt := now\<rparr>, w1))"

text \<open>\<^verbatim>\<open>CreateTask\<close>: the struct literal calls \<^verbatim>\<open>uuid.New\<close>, then \<^verbatim>\<open>time.Now\<close> for
  \<^verbatim>\<open>CreatedAt\<close>, then \<^verbatim>\<open>time.Now\<close> again for \<^verbatim>\<open>UpdatedAt\<close>.\<close>

definition CreateTask ::
  "World \<Rightarrow> string \<Rightarrow> string \<Rightarrow> TaskPriority \<Rightarrow> (error + Task) \<times> World" where
  "CreateTask w title description priority =
     (case uuid_New w of (i, w1) \<Rightarrow>
     (case time_Now w1 of (c, w2) \<Rightarrow>
     (case time_Now w2 of (u, w3) \<Rightarrow>
      (let task = \<lparr>ID = i, Title = title, Description = description,
                   Status = TaskStatusPending, Priority = priority,
                   CreatedAt = c, UpdatedAt = u, CompletedAt = None\<rparr> in
       (case Validate task of
          Some err \<Rightarrow> (Inl (Errorf ''task validation failed'' err), w3)
        | None \<Rightarrow>
            (case Create w3 task of
               (Some err, w4) \<Rightarrow> (Inl (Errorf ''failed to create task'' err), w4)
             | (None, w4) \<Rightarrow> (Inr task, w4)))))))"

definition GetTask :: "World \<Rightarrow> string \<Rightarrow> (error + Task) \<times> World" where
  "GetTask w i =
     (if i = '''' then (Inl ErrInvalidTaskID, w)
      else case GetByID w i of
             (Inl err, w1) \<Rightarrow> (Inl err, w1)
           | (Inr task, w1) \<Rightarrow> (Inr task, w1))"

definition ListTasks :: "World \<Rightarrow> TaskFilter \<Rightarrow> (error + Task list) \<times> World" where
  "ListTasks w f =
     (case List w f of
        (Inl err, w1) \<Rightarrow> (Inl (Errorf ''failed to list tasks'' err), w1)
      | (Inr ts, w1) \<Rightarrow> (Inr ts, w1))"

definition UpdateTask ::
  "World \<Rightarrow> string \<Rightarrow> string \<Rightarrow> string \<Rightarrow> TaskPriority \<Rightarrow> (error + Task) \<times> World" where
  "UpdateTask w i title description priority =
     (if i = '''' then (Inl ErrInvalidTaskID, w)
      else case GetByID w i of
        (Inl err, w1) \<Rightarrow> (Inl err, w1)
      | (Inr task, w1) \<Rightarrow>
          let task1 = (if title \<noteq> '''' then task\<lparr>Title := title\<rparr> else task);
              task2 = (if description \<noteq> '''' then task1\<lparr>Description := description\<rparr>
                       else task1);
              task3 = (if priority \<noteq> '''' then task2\<lparr>Priority := priority\<rparr> else task2)
          in (case time_Now w1 of (now, w2) \<Rightarrow>
               (let task4 = task3\<lparr>UpdatedAt := now\<rparr> in
                (case Validate task4 of
                   Some err \<Rightarrow> (Inl (Errorf ''task validation failed'' err), w2)
                 | None \<Rightarrow>
                     (case Update w2 task4 of
                        (Some err, w3) \<Rightarrow> (Inl (Errorf ''failed to update task'' err), w3)
                      | (None, w3) \<Rightarrow> (Inr task4, w3))))))"

definition CompleteTask :: "World \<Rightarrow> string \<Rightarrow> (error + Task) \<times> World" where
  "CompleteTask w i =
     (if i = '''' then (Inl ErrInvalidTaskID, w)
      else case GetByID w i of
        (Inl err, w1) \<Rightarrow> (Inl err, w1)
      | (Inr task, w1) \<Rightarrow>
          if Status task = TaskStatusCompleted then (Inr task, w1)
          else (case MarkCompleted w1 task of (task1, w2) \<Rightarrow>
            (case Update w2 task1 of
               (Some err, w3) \<Rightarrow> (Inl (Errorf ''failed to complete task'' err), w3)
             | (None, w3) \<Rightarrow> (Inr task1, w3))))"

definition DeleteTask :: "World \<Rightarrow> string \<Rightarrow> error option \<times> World" where
  "DeleteTask w i =
     (if i = '''' then (Some ErrInvalidTaskID, w)
      else case Delete w i of
             (Some err, w1) \<Rightarrow> (Some err, w1)
           | (None, w1) \<Rightarrow> (None, w1))"

section \<open>Storage initializer (SQLiteStorage)\<close>

text \<open>The statements of the migration scripts; each is an \<^verbatim>\<open>IF NOT EXISTS\<close> statement.\<close>

datatype Ddl = CreateTasksTable | CreateIndex string string

text \<open>\<^verbatim>\<open>CREATE TABLE IF NOT EXISTS tasks (...)\<close> creates the empty table when it is absent.
  \<^verbatim>\<open>CREATE INDEX IF NOT EXISTS name ON tasks(col)\<close> needs the table, and adds the index
  when no index has that name.\<close>

fun exec_ddl :: "Database \<Rightarrow> Ddl \<Rightarrow> SqliteError + Database" where
  "exec_ddl d CreateTasksTable =
     (case tasks_tbl d of
        None \<Rightarrow> Inr (d\<lparr>tasks_tbl := Some []\<rparr>)
      | Some rows \<Rightarrow> Inr d)"
| "exec_ddl d (CreateIndex name col) =
     (case tasks_tbl d of
        None \<Rightarrow> Inl NoSuchTable
      | Some rows \<Rightarrow>
          if name \<in> set (map fst (indexes d)) then Inr d
          else Inr (d\<lparr>indexes := indexes d @ [(name, col)]\<rparr>))"

text \<open>A script of several statements runs them in order and stops at the first error.\<close>

fun exec_script :: "Database \<Rightarrow> Ddl list \<Rightarrow> SqliteError + Database" where
  "exec_script d [] = Inr d"
| "exec_script d (s # ss) =
     (case exec_ddl d s of
        Inl e \<Rightarrow> Inl e
      | Inr d1 \<Rightarrow> exec_script d1 ss)"

text \<open>\<^verbatim>\<open>CREATE TABLE IF NOT EXISTS migrations (...)\<close>.\<close>

definition sql_create_migrations_table :: "Database \<Rightarrow> Database" where
  "sql_create_migrations_table d =
     (case migrations_tbl d of
        None \<Rightarrow> d\<lparr>migrations_tbl := Some []\<rparr>
      | Some rows \<Rightarrow> d)"

text \<open>\<^verbatim>\<open>SELECT version FROM migrations\<close>.\<close>

definition sql_select_versions :: "Database \<Rightarrow> SqliteError + string list" where
  "sql_select_versions d =
     (case migrations_tbl d of
        None \<Rightarrow> Inl NoSuchTable
      | Some rows \<Rightarrow> Inr (map version rows))"

text \<open>\<^verbatim>\<open>INSERT INTO migrations (version) VALUES (?)\<close>: \<^verbatim>\<open>version\<close> is the primary key, and
  \<^verbatim>\<open>applied_at\<close> defaults to the current timestamp \<open>now\<close>.\<close>

definition sql_insert_migration :: "Database \<Rightarrow> string \<Rightarrow> time \<Rightarrow> SqliteError + Database" where
  "sql_insert_migration d v now =
     (case migrations_tbl d of
        None \<Rightarrow> Inl NoSuchTable
      | Some rows \<Rightarrow>
          if v \<in> set (map version rows) then Inl ConstraintPrimaryKey
          else Inr (d\<lparr>migrations_tbl := Some (rows @ [\<lparr>version = v, applied_at = now\<rparr>])\<rparr>))"

text \<open>The map literal of \<^verbatim>\<open>runMigrations\<close>: version name to script.\<close>

definition migrations :: "(string \<times> Ddl list) list" where
  "migrations =
     [(''001_create_tasks_table'',
       [CreateTasksTable,
        CreateIndex ''idx_tasks_status'' ''status'',
        CreateIndex ''idx_tasks_priority'' ''priority'',
        CreateIndex ''idx_tasks_created_at'' ''created_at''])]"

text \<open>\<^verbatim>\<open>getAppliedMigrations\<close>: the set of versions in the ledger.\<close>

definition getAppliedMigrations :: "World \<Rightarrow> (error + string set) \<times> World" where
  "getAppliedMigrations w =
     (let w1 = send SelectVersions w in
      case sql_select_versions (db w1) of
        Inl e \<Rightarrow> (Inl (DriverError e), w1)
      | Inr vs \<Rightarrow> (Inr (set vs), w1))"

text \<open>
  The loop of \<^verbatim>\<open>runMigrations\<close> over the sorted versions.  A version in the applied set
  is skipped.  Otherwise the script and the ledger row are written inside a transaction:
  the database of the world changes at the commit only, and a rollback leaves it as it
  was when the transaction began.  The ledger row's \<^verbatim>\<open>CURRENT_TIMESTAMP\<close> is a reading of
  the system clock.  Beginning and committing a transaction do not fail here.
\<close>

fun apply_migrations :: "World \<Rightarrow> string set \<Rightarrow> string list \<Rightarrow> error option \<times> World" where
  "apply_migrations w appliedMigrations [] = (None, w)"
| "apply_migrations w appliedMigrations (v # vs) =
     (if v \<in> appliedMigrations then apply_migrations w appliedMigrations vs
      else
        let content = (case map_of migrations v of None \<Rightarrow> [] | Some c \<Rightarrow> c);
            w1 = send BeginTx w;
            w2 = send (ExecMigration v) w1
        in (case exec_script (db w2) content of
              Inl e \<Rightarrow>
                (Some (Errorf (''failed to execute migration '' @ v) (DriverError e)),
                 send Rollback w2)
            | Inr d1 \<Rightarrow>
                (case time_Now (send (InsertMigration v) w2) of (now, w3) \<Rightarrow>
                  (case sql_insert_migration d1 v now of
                     Inl e \<Rightarrow>
                       (Some (Errorf (''failed to record migration '' @ v) (DriverError e)),
                        send Rollback w3)
                   | Inr d2 \<Rightarrow>
                       apply_migrations ((send Commit w3)\<lparr>db := d2\<rparr>) appliedMigrations vs))))"

text \<open>\<^verbatim>\<open>runMigrations\<close>: the ledger table, the applied set, the sorted versions, the loop.\<close>

definition runMigrations :: "World \<Rightarrow> error option \<times> World" where
  "runMigrations w =
     (let w0 = send CreateMigrationsTable w;
          w1 = w0\<lparr>db := sql_create_migrations_table (db w0)\<rparr>
      in (case getAppliedMigrations w1 of
            (Inl err, w2) \<Rightarrow> (Some (Errorf ''failed to get applied migrations'' err), w2)
          | (Inr appliedMigrations, w2) \<Rightarrow>
              apply_migrations w2 appliedMigrations (sort (map fst migrations))))"

text \<open>A database is migrated when the ledger exists and records every version of the map.\<close>

definition migrated :: "Database \<Rightarrow> bool" where
  "migrated d =
     (case migrations_tbl d of
        None \<Rightarrow> False
      | Some rows \<Rightarrow> set (map fst migrations) \<subseteq> set (map version rows))"

section \<open>The completion invariant and sequences of service calls\<close>

text \<open>The invariant of a task: \<^verbatim>\<open>CompletedAt\<close> is set exactly when the status is completed.\<close>

definition task_inv :: "Task \<Rightarrow> bool" where
  "task_inv t = ((CompletedAt t \<noteq> None) = (Status t = TaskStatusCompleted))"

text \<open>The store satisfies the invariant when every row of the \<^verbatim>\<open>tasks\<close> table does.\<close>

definition store_inv :: "World \<Rightarrow> bool" where
  "store_inv w = (case tasks_tbl (db w) of None \<Rightarrow> True | Some rows \<Rightarrow> list_all task_inv rows)"

text \<open>A call of one of the six operations of the service, with its arguments.\<close>

datatype Call =
    CallCreate string string TaskPriority
  | CallGet string
  | CallList TaskFilter
  | CallUpdate string string string TaskPriority
  | CallComplete string
  | CallDelete string

text \<open>Performing a call: the tasks it returns to the caller, and the world it leaves.\<close>

fun perform :: "World \<Rightarrow> Call \<Rightarrow> Task list \<times> World" where
  "perform w (CallCreate title description priority) =
     (case CreateTask w title description priority of
        (Inl err, w1) \<Rightarrow> ([], w1) | (Inr task, w1) \<Rightarrow> ([task], w1))"
| "perform w (CallGet i) =
     (case GetTask w i of (Inl err, w1) \<Rightarrow> ([], w1) | (Inr task, w1) \<Rightarrow> ([task], w1))"
| "perform w (CallList f) =
     (case ListTasks w f of (Inl err, w1) \<Rightarrow> ([], w1) | (Inr tasks, w1) \<Rightarrow> (tasks, w1))"
| "perform w (CallUpdate i title description priority) =
     (case UpdateTask w i title description priority of
        (Inl err, w1) \<Rightarrow> ([], w1) | (Inr task, w1) \<Rightarrow> ([task], w1))"
| "perform w (CallComplete i) =
     (case CompleteTask w i of (Inl err, w1) \<Rightarrow> ([], w1) | (Inr task, w1) \<Rightarrow> ([task], w1))"
| "perform w (CallDelete i) = ([], snd (DeleteTask w i))"

text \<open>Performing a sequence of calls, collecting every task returned on the way.\<close>

fun run :: "World \<Rightarrow> Call list \<Rightarrow> Task list \<times> World" where
  "run w [] = ([], w)"
| "run w (c # cs) =
     (case perform w c of (produced, w1) \<Rightarrow>
       (case run w1 cs of (later, w2) \<Rightarrow> (produced @ later, w2)))"

section \<open>The filter as the specification words it\<close>

text \<open>
  The specification of \<^verbatim>\<open>list\<close>: a row is returned when it satisfies every predicate that
  is set in the filter: status equality, priority equality, the inclusive lower bound and
  the inclusive upper bound on \<^verbatim>\<open>created_at\<close>.  A predicate that is not set holds of
  every row.
\<close>

definition satisfies_filter :: "TaskFilter \<Rightarrow> Task \<Rightarrow> bool" where
  "satisfies_filter f r =
     ((FilterStatus f = None \<or> FilterStatus f = Some (Status r))
      \<and> (FilterPriority f = None \<or> FilterPriority f = Some (Priority r))
      \<and> (FromDate f = None \<or> the (FromDate f) \<le> CreatedAt r)
      \<and> (ToDate f = None \<or> CreatedAt r \<le> the (ToDate f)))"

text \<open>The filter with no field set.\<close>

definition empty_filter :: TaskFilter where
  "empty_filter = \<lparr>FilterStatus = None, FilterPriority = None, FromDate = None, ToDate = None\<rparr>"

section \<open>Example worlds\<close>

definition example_clock :: "nat \<Rightarrow> time" where
  "example_clock k = Time (1000 + 10 * int k) 0"

definition example_uuids :: "nat \<Rightarrow> string" where
  "example_uuids k = ''task-'' @ replicate (Suc k) CHR ''a''"

definition example_pending :: Task where
  "example_pending =
     \<lparr>ID = ''task-1'', Title = ''Buy milk'', Description = ''two litres'',
      Status = ''pending'', Priority = ''low'',
      CreatedAt = Time 100 0, UpdatedAt = Time 100 0, CompletedAt = None\<rparr>"

definition example_completed :: Task where
  "example_completed =
     \<lparr>ID = ''task-2'', Title = ''Pay rent'', Description = '''',
      Status = ''completed'', Priority = ''high'',
      CreatedAt = Time 200 0, UpdatedAt = Time 300 0, CompletedAt = Some (Time 300 0)\<rparr>"

text \<open>A migrated database holding the given rows, with nothing sent to it yet.\<close>

definition example_world :: "Task list \<Rightarrow> World" where
  "example_world rows =
     \<lparr>db = \<lparr>tasks_tbl = Some rows,
             indexes = [(''idx_tasks_status'', ''status''),
                        (''idx_tasks_priority'', ''priority''),
                        (''idx_tasks_created_at'', ''created_at'')],
             migrations_tbl = Some [\<lparr>version = ''001_create_tasks_table'', applied_at = Time 50 0\<rparr>]\<rparr>,
      clock = example_clock, ticks = 0, uuids = example_uuids, drawn = 0, trace = []\<rparr>"

text \<open>A database file that has just been created: no table yet.\<close>

definition fresh_world :: World where
  "fresh_world =
     \<lparr>db = \<lparr>tasks_tbl = None, indexes = [], migrations_tbl = None\<rparr>,
      clock = example_clock, ticks = 0, uuids = example_uuids, drawn = 0, trace = []\<rparr>"

text \<open>A world whose clock returns the same reading at every call.\<close>

definition stalled_world :: World where
  "stalled_world = (example_world [])\<lparr>clock := (\<lambda>k. Time 1000 0)\<rparr>"

text \<open>Two tasks created an hour apart by processes in different zones: the first at
  08:00 UTC on the first day of the epoch, in a zone two hours east of UTC; the second at
  09:00 UTC, in UTC.\<close>

definition example_east :: Task where
  "example_east =
     \<lparr>ID = ''task-east'', Title = ''Water the plants'', Description = '''',
      Status = ''pending'', Priority = ''low'',
      CreatedAt = Time 28800000000000 120, UpdatedAt = Time 28800000000000 120,
      CompletedAt = None\<rparr>"

definition example_utc :: Task where
  "example_utc =
     \<lparr>ID = ''task-utc'', Title = ''Send the report'', Description = '''',
      Status = ''pending'', Priority = ''low'',
      CreatedAt = Time 32400000000000 0, UpdatedAt = Time 32400000000000 0,
      CompletedAt = None\<rparr>"

section \<open>Basic facts about the store\<close>

lemma send_simps [simp]:
  "db (send s w) = db w" "clock (send s w) = clock w" "ticks (send s w) = ticks w"
  "uuids (send s w) = uuids w" "drawn (send s w) = drawn w"
  "trace (send s w) = trace w @ [s]"
  by (simp_all add: send_def)

lemma GetByID_table:
  assumes "tasks_tbl (db w) = Some rows"
  shows "GetByID w i =
    (case find (\<lambda>r. ID r = i) rows of
       None \<Rightarrow> (Inl ErrTaskNotFound, send (SelectTaskByID i) w)
     | Some t \<Rightarrow> (Inr t, send (SelectTaskByID i) w))"
  using assms by (simp add: GetByID_def sql_select_task_def Let_def split: option.split)

lemma GetByID_no_table:
  assumes "tasks_tbl (db w) = None"
  shows "GetByID w i =
    (Inl (Errorf ''failed to get task'' (DriverError NoSuchTable)), send (SelectTaskByID i) w)"
  using assms by (simp add: GetByID_def sql_select_task_def Let_def)

lemma GetByID_world: "snd (GetByID w i) = send (SelectTaskByID i) w"
  by (simp add: GetByID_def Let_def split: sum.split option.split)

lemma GetByID_Inr:
  assumes "GetByID w i = (Inr t, w1)"
  shows "\<exists>rows. tasks_tbl (db w) = Some rows \<and> find (\<lambda>r. ID r = i) rows = Some t
           \<and> w1 = send (SelectTaskByID i) w"
proof (cases "tasks_tbl (db w)")
  case None
  with assms show ?thesis by (simp add: GetByID_no_table)
next
  case (Some rows)
  with assms show ?thesis
    by (auto simp: GetByID_table split: option.splits)
qed

lemma find_ID: "find (\<lambda>r. ID r = i) rows = Some t \<Longrightarrow> ID t = i \<and> t \<in> set rows"
  by (auto simp: find_Some_iff)

lemma find_None_ID: "(find (\<lambda>r. ID r = i) rows = None) = (i \<notin> set (map ID rows))"
  by (auto simp: find_None_iff)

lemma count_zero_ID: "(length (filter (\<lambda>r. ID r = i) rows) = 0) = (i \<notin> set (map ID rows))"
  by (auto simp: filter_empty_conv)

lemma Update_write_table:
  assumes "tasks_tbl (db w) = Some rows"
  shows "Update_write w t =
    (if ID t \<notin> set (map ID rows) then (Some ErrTaskNotFound,
           (send (UpdateTaskRow (ID t)) w)\<lparr>db := (db w)\<lparr>tasks_tbl := Some rows\<rparr>\<rparr>)
     else if \<not> check_clauses t then
       (Some (Errorf ''failed to update task'' (DriverError ConstraintCheck)),
        send (UpdateTaskRow (ID t)) w)
     else (None, (send (UpdateTaskRow (ID t)) w)\<lparr>db := (db w)\<lparr>tasks_tbl :=
              Some (map (\<lambda>r. if ID r = ID t then set_columns t r else r) rows)\<rparr>\<rparr>))"
proof -
  have same: "ID t \<notin> set (map ID rows) \<Longrightarrow>
     map (\<lambda>r. if ID r = ID t then set_columns t r else r) rows = rows"
    by (induction rows) auto
  show ?thesis
    using assms same count_zero_ID [of "ID t" rows]
    by (auto simp: Update_write_def sql_update_task_def Let_def)
qed

lemma Validate_None:
  "(Validate t = None) =
     (Title t \<noteq> '''' \<and> (Status t = ''pending'' \<or> Status t = ''completed'')
      \<and> (Priority t = ''low'' \<or> Priority t = ''medium'' \<or> Priority t = ''high''))"
  by (auto simp: Validate_def TaskStatusPending_def TaskStatusCompleted_def
        TaskPriorityLow_def TaskPriorityMedium_def TaskPriorityHigh_def)

lemma Validate_check: "Validate t = None \<Longrightarrow> check_clauses t"
  by (simp add: Validate_None check_clauses_def)

lemma Update_table:
  assumes "tasks_tbl (db w) = Some rows"
  shows "Update w t =
    (if ID t \<notin> set (map ID rows) then (Some ErrTaskNotFound, send (SelectTaskByID (ID t)) w)
     else if \<not> check_clauses t then
       (Some (Errorf ''failed to update task'' (DriverError ConstraintCheck)),
        send (UpdateTaskRow (ID t)) (send (SelectTaskByID (ID t)) w))
     else (None, (send (UpdateTaskRow (ID t)) (send (SelectTaskByID (ID t)) w))\<lparr>db :=
             (db w)\<lparr>tasks_tbl :=
              Some (map (\<lambda>r. if ID r = ID t then set_columns t r else r) rows)\<rparr>\<rparr>))"
proof (cases "find (\<lambda>r. ID r = ID t) rows")
  case None
  then have "ID t \<notin> set (map ID rows)"
    using find_None_ID [of "ID t" rows] by simp
  then show ?thesis
    using assms None by (simp add: Update_def GetByID_table)
next
  case (Some existing)
  then have "ID t \<in> set (map ID rows)"
    using find_None_ID [of "ID t" rows] by auto
  then show ?thesis
    using assms Some
    by (simp add: Update_def GetByID_table Update_write_table [where rows = rows])
qed

section \<open>An empty identifier is rejected before the store is touched\<close>

text \<open>
  Claim C9.  For the empty identifier, each of \<^verbatim>\<open>GetTask\<close>, \<^verbatim>\<open>UpdateTask\<close>,
  \<^verbatim>\<open>CompleteTask\<close> and \<^verbatim>\<open>DeleteTask\<close> returns \<^verbatim>\<open>ErrInvalidTaskID\<close> and leaves the world
  exactly as it was, whatever the world: the database is unchanged, no statement has
  been sent to it, and neither the clock nor the identifier source has been read.
\<close>

theorem empty_id_rejected:
  "GetTask w '''' = (Inl ErrInvalidTaskID, w)
   \<and> UpdateTask w '''' title description priority = (Inl ErrInvalidTaskID, w)
   \<and> CompleteTask w '''' = (Inl ErrInvalidTaskID, w)
   \<and> DeleteTask w '''' = (Some ErrInvalidTaskID, w)"
  by (simp add: GetTask_def UpdateTask_def CompleteTask_def DeleteTask_def)

theorem empty_id_rejected_witness:
  "GetTask (example_world [example_pending]) '''' =
     (Inl ErrInvalidTaskID, example_world [example_pending])
   \<and> UpdateTask (example_world [example_pending]) '''' ''New title'' '''' ''high'' =
     (Inl ErrInvalidTaskID, example_world [example_pending])
   \<and> CompleteTask (example_world [example_pending]) '''' =
     (Inl ErrInvalidTaskID, example_world [example_pending])
   \<and> DeleteTask (example_world [example_pending]) '''' =
     (Some ErrInvalidTaskID, example_world [example_pending])"
  by (rule empty_id_rejected)

section \<open>Creating a task\<close>

lemma example_world_simps [simp]:
  "tasks_tbl (db (example_world rows)) = Some rows"
  "clock (example_world rows) = example_clock"
  "ticks (example_world rows) = 0"
  "uuids (example_world rows) = example_uuids"
  "drawn (example_world rows) = 0"
  "trace (example_world rows) = []"
  by (simp_all add: example_world_def)

lemma Create_fresh:
  assumes "tasks_tbl (db w) = Some rows" and "check_clauses task"
    and "ID task \<notin> set (map ID rows)"
  shows "Create w task =
     (None, (send (InsertTask (ID task)) w)\<lparr>db := (db w)\<lparr>tasks_tbl := Some (rows @ [task])\<rparr>\<rparr>)"
  using assms by (simp add: Create_def sql_insert_task_def Let_def)

text \<open>The store's \<^verbatim>\<open>Create\<close> fails on every task whose id is already in the table, and what
  it returns never matches \<^verbatim>\<open>ErrDuplicateTask\<close>: it is the driver's error, wrapped.\<close>

lemma Create_duplicate:
  assumes "tasks_tbl (db w) = Some rows" and "ID task \<in> set (map ID rows)"
  shows "\<exists>e. Create w task = (Some e, send (InsertTask (ID task)) w)
            \<and> \<not> errors_Is e ErrDuplicateTask"
  using assms by (auto simp: Create_def sql_insert_task_def Let_def)

text \<open>
  Claim C1.  The claim says that \<^verbatim>\<open>Create\<close> on a task whose id is that of a row already
  in the table fails with the distinguished duplicate error.  Evaluated on a table that
  holds the row \<^verbatim>\<open>task-1\<close> and a task with the same id, \<^verbatim>\<open>Create\<close> fails, the table is
  unchanged, and the error is \<^verbatim>\<open>fmt.Errorf("failed to create task: %w", err)\<close> around
  the driver's primary-key error; \<^verbatim>\<open>errors.Is\<close> does not find \<^verbatim>\<open>ErrDuplicateTask\<close> in it.
\<close>

theorem Create_duplicate_generic_error:
  "Create (example_world [example_pending]) (example_pending\<lparr>Title := ''Buy bread''\<rparr>) =
     (Some (Errorf ''failed to create task'' (DriverError ConstraintPrimaryKey)),
      send (InsertTask ''task-1'') (example_world [example_pending]))
   \<and> \<not> errors_Is (Errorf ''failed to create task'' (DriverError ConstraintPrimaryKey))
          ErrDuplicateTask"
  by (simp add: Create_def sql_insert_task_def Let_def example_world_def example_pending_def
      check_clauses_def)

text \<open>
  Claim C2 as stated fails: \<^verbatim>\<open>CreateTask\<close> reads the clock once for \<^verbatim>\<open>CreatedAt\<close> and once
  more for \<^verbatim>\<open>UpdatedAt\<close>.  With a clock that advances by 10 between two readings, the
  task created for the valid input (\<^verbatim>\<open>"Buy milk"\<close>, \<^verbatim>\<open>low\<close>) is created at instant 1000 and
  updated at instant 1010.
\<close>

theorem CreateTask_timestamps_differ:
  "fst (CreateTask (example_world []) ''Buy milk'' '''' TaskPriorityLow) =
     Inr \<lparr>ID = ''task-a'', Title = ''Buy milk'', Description = '''',
          Status = TaskStatusPending, Priority = TaskPriorityLow,
          CreatedAt = Time 1000 0, UpdatedAt = Time 1010 0, CompletedAt = None\<rparr>
   \<and> CreatedAt (projr (fst (CreateTask (example_world []) ''Buy milk'' '''' TaskPriorityLow)))
     \<noteq> UpdatedAt (projr (fst (CreateTask (example_world []) ''Buy milk'' '''' TaskPriorityLow)))"
  by (simp add: CreateTask_def uuid_New_def time_Now_def Validate_def Create_def
      sql_insert_task_def Let_def check_clauses_def example_clock_def example_uuids_def
      TaskStatusPending_def TaskStatusCompleted_def TaskPriorityLow_def
      TaskPriorityMedium_def TaskPriorityHigh_def)

text \<open>
  Claim C2, amended.  For every valid input (non-empty title, priority one of low, medium,
  high), on a database that has the \<^verbatim>\<open>tasks\<close> table and does not hold the identifier
  drawn, \<^verbatim>\<open>CreateTask\<close> returns a task whose title, description and priority are the
  inputs, whose status is pending, whose \<^verbatim>\<open>CompletedAt\<close> is unset, whose \<^verbatim>\<open>CreatedAt\<close> is
  the reading of the clock taken first and whose \<^verbatim>\<open>UpdatedAt\<close> is the reading taken next
  (so \<^verbatim>\<open>CreatedAt \<le> UpdatedAt\<close> when the clock does not run backwards, with equality when
  the two readings coincide).  The task is appended to the table, and \<^verbatim>\<open>GetTask\<close> on its
  id returns it.
\<close>

theorem CreateTask_valid:
  assumes "title \<noteq> ''''"
    and "priority = TaskPriorityLow \<or> priority = TaskPriorityMedium \<or> priority = TaskPriorityHigh"
    and "tasks_tbl (db w) = Some rows"
    and "uuids w (drawn w) \<notin> set (map ID rows)"
  shows "\<exists>t w'. CreateTask w title description priority = (Inr t, w')
           \<and> Title t = title \<and> Priority t = priority \<and> Description t = description
           \<and> Status t = TaskStatusPending \<and> CompletedAt t = None
           \<and> ID t = uuids w (drawn w)
           \<and> CreatedAt t = clock w (ticks w) \<and> UpdatedAt t = clock w (Suc (ticks w))
           \<and> (clock w (ticks w) \<le> clock w (Suc (ticks w)) \<longrightarrow> CreatedAt t \<le> UpdatedAt t)
           \<and> tasks_tbl (db w') = Some (rows @ [t])
           \<and> (uuids w (drawn w) \<noteq> '''' \<longrightarrow> fst (GetTask w' (ID t)) = Inr t)"
proof -
  define task where "task = \<lparr>ID = uuids w (drawn w), Title = title, Description = description,
                   Status = TaskStatusPending, Priority = priority,
                   CreatedAt = clock w (ticks w), UpdatedAt = clock w (Suc (ticks w)),
                   CompletedAt = None\<rparr>"
  define w3 where "w3 = w\<lparr>drawn := Suc (drawn w), ticks := Suc (Suc (ticks w))\<rparr>"
  define w4 where "w4 = (send (InsertTask (ID task)) w3)\<lparr>db := (db w3)\<lparr>tasks_tbl := Some (rows @ [task])\<rparr>\<rparr>"
  have valid: "Validate task = None"
    using assms(1,2)
    by (auto simp: Validate_None task_def TaskStatusPending_def TaskPriorityLow_def
        TaskPriorityMedium_def TaskPriorityHigh_def)
  have tbl: "tasks_tbl (db w3) = Some rows"
    using assms(3) by (simp add: w3_def)
  have fresh: "ID task \<notin> set (map ID rows)"
    using assms(4) by (simp add: task_def)
  have create: "Create w3 task = (None, w4)"
    unfolding w4_def by (rule Create_fresh [OF tbl Validate_check [OF valid] fresh])
  have run: "CreateTask w title description priority = (Inr task, w4)"
    using valid create
    by (simp add: CreateTask_def uuid_New_def time_Now_def Let_def task_def [symmetric]
        w3_def [symmetric])
  have tbl4: "tasks_tbl (db w4) = Some (rows @ [task])"
    by (simp add: w4_def)
  have found: "find (\<lambda>r. ID r = ID task) (rows @ [task]) = Some task"
    using fresh by (induction rows) auto
  have get: "uuids w (drawn w) \<noteq> '''' \<longrightarrow> fst (GetTask w4 (ID task)) = Inr task"
    using found by (simp add: GetTask_def GetByID_table [OF tbl4] task_def)
  show ?thesis
    using run tbl4 get by (auto simp: task_def)
qed

theorem CreateTask_valid_witness:
  "\<exists>t w'. CreateTask (example_world [example_pending]) ''Pay rent'' '''' TaskPriorityHigh = (Inr t, w')
           \<and> Title t = ''Pay rent'' \<and> Priority t = TaskPriorityHigh \<and> Description t = ''''
           \<and> Status t = TaskStatusPending \<and> CompletedAt t = None
           \<and> ID t = ''task-a''
           \<and> CreatedAt t = Time 1000 0 \<and> UpdatedAt t = Time 1010 0 \<and> CreatedAt t \<le> UpdatedAt t
           \<and> tasks_tbl (db w') = Some [example_pending, t]
           \<and> fst (GetTask w' (ID t)) = Inr t"
proof -
  have h1: "''Pay rent'' \<noteq> ''''" by simp
  have h2: "TaskPriorityHigh = TaskPriorityLow \<or> TaskPriorityHigh = TaskPriorityMedium
            \<or> TaskPriorityHigh = TaskPriorityHigh" by simp
  have h3: "tasks_tbl (db (example_world [example_pending])) = Some [example_pending]" by simp
  have h4: "uuids (example_world [example_pending]) (drawn (example_world [example_pending]))
            \<notin> set (map ID [example_pending])"
    by (simp add: example_uuids_def example_pending_def)
  from CreateTask_valid [OF h1 h2 h3 h4, of "''''"] show ?thesis
    by (simp add: example_uuids_def example_clock_def less_eq_time_def)
qed

section \<open>Updating a task\<close>

lemma find_map_set_columns:
  assumes "find (\<lambda>r. ID r = i) rows = Some old" and "ID t = i"
  shows "find (\<lambda>r. ID r = i) (map (\<lambda>r. if ID r = ID t then set_columns t r else r) rows)
         = Some (set_columns t old)"
  using assms by (induction rows) (auto simp: set_columns_def)

lemma UpdateTask_table:
  assumes "i \<noteq> ''''" and "tasks_tbl (db w) = Some rows"
    and "find (\<lambda>r. ID r = i) rows = Some old"
    and "t4 = old\<lparr>Title := (if title \<noteq> '''' then title else Title old),
                   Description := (if description \<noteq> '''' then description else Description old),
                   Priority := (if priority \<noteq> '''' then priority else Priority old),
                   UpdatedAt := clock w (ticks w)\<rparr>"
    and "w2 = (send (SelectTaskByID i) w)\<lparr>ticks := Suc (ticks w)\<rparr>"
  shows "UpdateTask w i title description priority =
     (case Validate t4 of
        Some err \<Rightarrow> (Inl (Errorf ''task validation failed'' err), w2)
      | None \<Rightarrow> (Inr t4, (send (UpdateTaskRow i) (send (SelectTaskByID i) w2))\<lparr>db :=
             (db w)\<lparr>tasks_tbl :=
              Some (map (\<lambda>r. if ID r = i then set_columns t4 r else r) rows)\<rparr>\<rparr>))"
proof -
  have id4: "ID t4 = i"
    using assms(3,4) find_ID [of i rows old] by simp
  have merged: "(let task1 = (if title \<noteq> '''' then old\<lparr>Title := title\<rparr> else old);
              task2 = (if description \<noteq> '''' then task1\<lparr>Description := description\<rparr>
                       else task1);
              task3 = (if priority \<noteq> '''' then task2\<lparr>Priority := priority\<rparr> else task2)
          in task3\<lparr>UpdatedAt := clock w (ticks w)\<rparr>) = t4"
    by (simp add: assms(4) Let_def)
  have tbl2: "tasks_tbl (db w2) = Some rows"
    using assms(2,5) by simp
  have in_tbl: "ID t4 \<in> set (map ID rows)"
    using assms(3) id4 find_None_ID [of i rows] by auto
  have upd: "Validate t4 = None \<Longrightarrow> Update w2 t4 =
      (None, (send (UpdateTaskRow i) (send (SelectTaskByID i) w2))\<lparr>db :=
             (db w)\<lparr>tasks_tbl :=
              Some (map (\<lambda>r. if ID r = i then set_columns t4 r else r) rows)\<rparr>\<rparr>)"
    using Update_table [OF tbl2, of t4] in_tbl Validate_check [of t4] id4 assms(5)
    by simp
  have get: "GetByID w i = (Inr old, send (SelectTaskByID i) w)"
    using assms(2,3) by (simp add: GetByID_table)
  show ?thesis
  proof (cases "Validate t4")
    case None
    then show ?thesis
      using assms(1) get merged upd [OF None]
      by (simp add: UpdateTask_def Let_def time_Now_def assms(5) [symmetric])
  next
    case (Some err)
    then show ?thesis
      using assms(1) get merged
      by (simp add: UpdateTask_def Let_def time_Now_def assms(5) [symmetric])
  qed
qed

lemma UpdateTask_Inr:
  assumes "UpdateTask w i title description priority = (Inr t', w')"
  shows "\<exists>rows old. i \<noteq> '''' \<and> tasks_tbl (db w) = Some rows
           \<and> find (\<lambda>r. ID r = i) rows = Some old
           \<and> t' = old\<lparr>Title := (if title \<noteq> '''' then title else Title old),
                   Description := (if description \<noteq> '''' then description else Description old),
                   Priority := (if priority \<noteq> '''' then priority else Priority old),
                   UpdatedAt := clock w (ticks w)\<rparr>
           \<and> Validate t' = None
           \<and> tasks_tbl (db w') = Some (map (\<lambda>r. if ID r = i then set_columns t' r else r) rows)"
proof -
  have ne: "i \<noteq> ''''"
    using assms by (auto simp: UpdateTask_def)
  obtain old w1 where get: "GetByID w i = (Inr old, w1)"
    using assms ne by (auto simp: UpdateTask_def split: prod.splits sum.splits)
  then obtain rows where tbl: "tasks_tbl (db w) = Some rows"
    and found: "find (\<lambda>r. ID r = i) rows = Some old"
    using GetByID_Inr by blast
  show ?thesis
    using assms UpdateTask_table [OF ne tbl found refl refl, of title description priority]
      tbl found ne
    by (auto split: option.splits)
qed


lemma find_map_other:
  assumes "j \<noteq> ID t"
  shows "find (\<lambda>r. ID r = j) (map (\<lambda>r. if ID r = ID t then set_columns t r else r) rows)
         = find (\<lambda>r. ID r = j) rows"
  using assms by (induction rows) (auto simp: set_columns_def)

lemma GetTask_table:
  assumes "i \<noteq> ''''" and "tasks_tbl (db w) = Some rows"
  shows "fst (GetTask w i) =
     (case find (\<lambda>r. ID r = i) rows of None \<Rightarrow> Inl ErrTaskNotFound | Some t \<Rightarrow> Inr t)"
  using assms by (simp add: GetTask_def GetByID_table split: option.split)

lemma UpdateTask_Inl_db:
  assumes "UpdateTask w i title description priority = (Inl e, w')"
  shows "db w' = db w"
proof (cases "i = ''''")
  case True
  with assms show ?thesis by (simp add: UpdateTask_def)
next
  case ne: False
  show ?thesis
  proof (cases "tasks_tbl (db w)")
    case None
    with assms ne show ?thesis
      by (auto simp: UpdateTask_def GetByID_no_table)
  next
    case (Some rows)
    show ?thesis
    proof (cases "find (\<lambda>r. ID r = i) rows")
      case None
      with assms ne Some show ?thesis
        by (auto simp: UpdateTask_def GetByID_table)
    next
      case (Some old)
      with assms ne \<open>tasks_tbl (db w) = Some rows\<close> show ?thesis
        using UpdateTask_table [OF ne \<open>tasks_tbl (db w) = Some rows\<close> Some refl refl,
            of title description priority]
        by (auto split: option.splits)
    qed
  qed
qed

lemmas constant_defs = TaskStatusPending_def TaskStatusCompleted_def TaskPriorityLow_def
  TaskPriorityMedium_def TaskPriorityHigh_def

lemmas store_defs = Create_def GetByID_def List_def Update_def Update_write_def Delete_def
  sql_insert_task_def sql_select_task_def sql_select_tasks_def sql_update_task_def
  sql_delete_task_def set_columns_def check_clauses_def where_clause_def

lemmas service_defs = CreateTask_def GetTask_def ListTasks_def UpdateTask_def
  CompleteTask_def DeleteTask_def MarkCompleted_def Validate_def time_Now_def uuid_New_def

lemmas example_defs = example_pending_def example_completed_def example_clock_def
  example_uuids_def

text \<open>
  Claim C3 as stated fails in its clause on \<^verbatim>\<open>updated_at\<close>: \<^verbatim>\<open>UpdateTask\<close> stores the reading
  of the clock, whatever it is.  With a clock that returns the same reading twice, a task
  is created by \<^verbatim>\<open>CreateTask\<close> and then given a new title by \<^verbatim>\<open>UpdateTask\<close>; the update
  succeeds and \<^verbatim>\<open>UpdatedAt\<close> is the value it was, not a later one.
\<close>

theorem UpdateTask_updated_at_not_later:
  "fst (CreateTask stalled_world ''Buy milk'' '''' TaskPriorityLow) =
     Inr \<lparr>ID = ''task-a'', Title = ''Buy milk'', Description = '''',
          Status = TaskStatusPending, Priority = TaskPriorityLow,
          CreatedAt = Time 1000 0, UpdatedAt = Time 1000 0, CompletedAt = None\<rparr>
   \<and> fst (UpdateTask (snd (CreateTask stalled_world ''Buy milk'' '''' TaskPriorityLow))
           ''task-a'' ''Buy oat milk'' '''' '''') =
     Inr \<lparr>ID = ''task-a'', Title = ''Buy oat milk'', Description = '''',
          Status = TaskStatusPending, Priority = TaskPriorityLow,
          CreatedAt = Time 1000 0, UpdatedAt = Time 1000 0, CompletedAt = None\<rparr>
   \<and> \<not> UpdatedAt (projr (fst (CreateTask stalled_world ''Buy milk'' '''' TaskPriorityLow)))
        < UpdatedAt (projr (fst (UpdateTask
            (snd (CreateTask stalled_world ''Buy milk'' '''' TaskPriorityLow))
            ''task-a'' ''Buy oat milk'' '''' '''')))"
  by (simp add: service_defs store_defs constant_defs stalled_world_def example_world_def
      example_uuids_def send_def Let_def less_time_def)

text \<open>
  Claim C3, amended.  For a non-empty id naming a stored task: whenever \<^verbatim>\<open>UpdateTask\<close>
  succeeds, the task returned differs from the stored one only in the supplied non-empty
  fields and in \<^verbatim>\<open>UpdatedAt\<close>: id, status, \<^verbatim>\<open>CreatedAt\<close> and \<^verbatim>\<open>CompletedAt\<close> are those of
  the stored task; title, description and priority are the argument when it is non-empty
  and the prior value otherwise (so an update with only a title changes the title and
  \<^verbatim>\<open>UpdatedAt\<close> and nothing else); \<^verbatim>\<open>UpdatedAt\<close> is the reading of the clock taken by the
  call.  The task returned is the row then stored under the id, and every other task is
  as before.  And \<^verbatim>\<open>UpdateTask\<close> does succeed whenever the stored task is valid and the
  priority argument is empty or one of low, medium, high, whichever of the three fields
  are supplied.
\<close>

theorem UpdateTask_frame:
  assumes "i \<noteq> ''''" and "tasks_tbl (db w) = Some rows"
    and "find (\<lambda>r. ID r = i) rows = Some old"
  shows "(\<forall>t' w'. UpdateTask w i title description priority = (Inr t', w') \<longrightarrow>
           fst (GetTask w i) = Inr old
         \<and> ID t' = ID old \<and> Status t' = Status old \<and> CreatedAt t' = CreatedAt old
         \<and> CompletedAt t' = CompletedAt old
         \<and> Title t' = (if title = '''' then Title old else title)
         \<and> Description t' = (if description = '''' then Description old else description)
         \<and> Priority t' = (if priority = '''' then Priority old else priority)
         \<and> (description = '''' \<and> priority = '''' \<longrightarrow>
              t' = old\<lparr>Title := Title t', UpdatedAt := UpdatedAt t'\<rparr>)
         \<and> UpdatedAt t' = clock w (ticks w)
         \<and> fst (GetTask w' i) = Inr t'
         \<and> (\<forall>j. j \<noteq> i \<longrightarrow> fst (GetTask w' j) = fst (GetTask w j)))
       \<and> (Validate old = None
          \<and> (priority = '''' \<or> priority = TaskPriorityLow \<or> priority = TaskPriorityMedium
               \<or> priority = TaskPriorityHigh) \<longrightarrow>
           (\<exists>t' w'. UpdateTask w i title description priority = (Inr t', w')))"
proof (intro conjI allI impI)
  fix t' w'
  assume run: "UpdateTask w i title description priority = (Inr t', w')"
  from UpdateTask_Inr [OF run] obtain rows' old' where
    tbl0: "tasks_tbl (db w) = Some rows'"
    and found0: "find (\<lambda>r. ID r = i) rows' = Some old'"
    and t0: "t' = old'\<lparr>Title := (if title \<noteq> '''' then title else Title old'),
                   Description := (if description \<noteq> '''' then description else Description old'),
                   Priority := (if priority \<noteq> '''' then priority else Priority old'),
                   UpdatedAt := clock w (ticks w)\<rparr>"
    and tbl0': "tasks_tbl (db w') = Some (map (\<lambda>r. if ID r = i then set_columns t' r else r) rows')"
    by blast
  have same: "rows' = rows" "old' = old"
    using assms(2,3) tbl0 found0 by simp_all
  note t' = t0 [unfolded same] and tbl' = tbl0' [unfolded same]
  have id: "ID t' = i" "ID old = i"
    using assms(3) t' find_ID [of i rows old] by simp_all
  show before: "fst (GetTask w i) = Inr old"
    using assms by (simp add: GetTask_table)
  have "set_columns t' old = t'"
    by (simp add: set_columns_def t')
  then show after: "fst (GetTask w' i) = Inr t'"
    using find_map_set_columns [OF assms(3) id(1)] assms(1) tbl' id
    by (simp add: GetTask_table)
  show "ID t' = ID old" and "Status t' = Status old" and "CreatedAt t' = CreatedAt old"
    and "CompletedAt t' = CompletedAt old"
    and "Title t' = (if title = '''' then Title old else title)"
    and "Description t' = (if description = '''' then Description old else description)"
    and "Priority t' = (if priority = '''' then Priority old else priority)"
    and "UpdatedAt t' = clock w (ticks w)"
    by (simp_all add: t')
  show "t' = old\<lparr>Title := Title t', UpdatedAt := UpdatedAt t'\<rparr>"
    if "description = '''' \<and> priority = ''''"
    using that by (simp add: t')
  show "fst (GetTask w' j) = fst (GetTask w j)" if "j \<noteq> i" for j
  proof (cases "j = ''''")
    case True
    then show ?thesis by (simp add: GetTask_def)
  next
    case False
    then show ?thesis
      using find_map_other [of j t' rows] that assms(2) tbl' id
      by (simp add: GetTask_table)
  qed
next
  assume ok: "Validate old = None
          \<and> (priority = '''' \<or> priority = TaskPriorityLow \<or> priority = TaskPriorityMedium
               \<or> priority = TaskPriorityHigh)"
  define t4 where "t4 = old\<lparr>Title := (if title \<noteq> '''' then title else Title old),
                   Description := (if description \<noteq> '''' then description else Description old),
                   Priority := (if priority \<noteq> '''' then priority else Priority old),
                   UpdatedAt := clock w (ticks w)\<rparr>"
  have "Validate t4 = None"
    using ok by (auto simp: Validate_None t4_def constant_defs)
  then show "\<exists>t' w'. UpdateTask w i title description priority = (Inr t', w')"
    using UpdateTask_table [OF assms t4_def refl]
    by simp
qed

theorem UpdateTask_frame_witness:
  "fst (UpdateTask (example_world [example_pending, example_completed])
          ''task-1'' ''Buy oat milk'' '''' '''')
     = Inr (example_pending\<lparr>Title := ''Buy oat milk'', UpdatedAt := Time 1000 0\<rparr>)
   \<and> fst (UpdateTask (example_world [example_pending, example_completed])
          ''task-1'' '''' ''three litres'' '''')
     = Inr (example_pending\<lparr>Description := ''three litres'', UpdatedAt := Time 1000 0\<rparr>)
   \<and> fst (UpdateTask (example_world [example_pending, example_completed])
          ''task-2'' '''' '''' TaskPriorityLow)
     = Inr (example_completed\<lparr>Priority := ''low'', UpdatedAt := Time 1000 0\<rparr>)
   \<and> fst (GetTask (snd (UpdateTask (example_world [example_pending, example_completed])
          ''task-1'' '''' ''three litres'' '''')) ''task-1'')
     = Inr (example_pending\<lparr>Description := ''three litres'', UpdatedAt := Time 1000 0\<rparr>)
   \<and> fst (GetTask (snd (UpdateTask (example_world [example_pending, example_completed])
          ''task-1'' '''' ''three litres'' '''')) ''task-2'')
     = Inr example_completed
   \<and> fst (GetTask (snd (UpdateTask (example_world [example_pending, example_completed])
          ''task-2'' '''' '''' TaskPriorityLow)) ''task-2'')
     = Inr (example_completed\<lparr>Priority := ''low'', UpdatedAt := Time 1000 0\<rparr>)
   \<and> (\<exists>t' w'. UpdateTask (example_world [example_pending, example_completed])
                  ''task-1'' ''Buy tea'' ''green'' TaskPriorityHigh = (Inr t', w'))"
proof -
  let ?w = "example_world [example_pending, example_completed]"
  have ne: "''task-1'' \<noteq> ''''" "''task-2'' \<noteq> ''''" by simp_all
  have tbl: "tasks_tbl (db ?w) = Some [example_pending, example_completed]" by simp
  have f1: "find (\<lambda>r. ID r = ''task-1'') [example_pending, example_completed]
            = Some example_pending"
    and f2: "find (\<lambda>r. ID r = ''task-2'') [example_pending, example_completed]
            = Some example_completed"
    by (simp_all add: example_defs)
  have v: "Validate example_pending = None" "Validate example_completed = None"
    by (simp_all add: Validate_def constant_defs example_defs)
  have other: "fst (GetTask ?w ''task-2'') = Inr example_completed"
    unfolding GetTask_table [OF ne(2) tbl] f2 by simp
  have r1: "fst (UpdateTask ?w ''task-1'' ''Buy oat milk'' '''' '''')
            = Inr (example_pending\<lparr>Title := ''Buy oat milk'', UpdatedAt := Time 1000 0\<rparr>)"
    and r2: "fst (UpdateTask ?w ''task-1'' '''' ''three litres'' '''')
            = Inr (example_pending\<lparr>Description := ''three litres'', UpdatedAt := Time 1000 0\<rparr>)"
    and r3: "fst (UpdateTask ?w ''task-2'' '''' '''' TaskPriorityLow)
            = Inr (example_completed\<lparr>Priority := ''low'', UpdatedAt := Time 1000 0\<rparr>)"
    by (simp_all add: service_defs store_defs constant_defs example_defs Let_def)
  have c2: "UpdateTask ?w ''task-1'' '''' ''three litres'' '''' =
      (Inr (example_pending\<lparr>Description := ''three litres'', UpdatedAt := Time 1000 0\<rparr>),
       snd (UpdateTask ?w ''task-1'' '''' ''three litres'' ''''))"
    using r2 by (metis prod.collapse)
  have c3: "UpdateTask ?w ''task-2'' '''' '''' TaskPriorityLow =
      (Inr (example_completed\<lparr>Priority := ''low'', UpdatedAt := Time 1000 0\<rparr>),
       snd (UpdateTask ?w ''task-2'' '''' '''' TaskPriorityLow))"
    using r3 by (metis prod.collapse)
  have d: "''task-2'' \<noteq> ''task-1''" by simp
  from UpdateTask_frame [OF ne(1) tbl f1, of "''''" "''three litres''" "''''"] c2 other d
  have a2: "fst (GetTask (snd (UpdateTask ?w ''task-1'' '''' ''three litres'' '''')) ''task-1'')
        = Inr (example_pending\<lparr>Description := ''three litres'', UpdatedAt := Time 1000 0\<rparr>)"
    and o2: "fst (GetTask (snd (UpdateTask ?w ''task-1'' '''' ''three litres'' '''')) ''task-2'')
        = Inr example_completed"
    by auto
  from UpdateTask_frame [OF ne(2) tbl f2, of "''''" "''''" TaskPriorityLow] c3
  have a3: "fst (GetTask (snd (UpdateTask ?w ''task-2'' '''' '''' TaskPriorityLow)) ''task-2'')
        = Inr (example_completed\<lparr>Priority := ''low'', UpdatedAt := Time 1000 0\<rparr>)"
    by auto
  have p: "TaskPriorityHigh = '''' \<or> TaskPriorityHigh = TaskPriorityLow
           \<or> TaskPriorityHigh = TaskPriorityMedium \<or> TaskPriorityHigh = TaskPriorityHigh"
    by simp
  from UpdateTask_frame [OF ne(1) tbl f1, of "''Buy tea''" "''green''" TaskPriorityHigh] v(1) p
  have s: "\<exists>t' w'. UpdateTask ?w ''task-1'' ''Buy tea'' ''green'' TaskPriorityHigh = (Inr t', w')"
    by blast
  show ?thesis
    using r1 r2 r3 a2 o2 a3 s by simp
qed

section \<open>An update cannot clear a field\<close>

lemma GetTask_db:
  assumes "db w' = db w"
  shows "fst (GetTask w' i) = fst (GetTask w i)"
  using assms by (simp add: GetTask_def GetByID_def Let_def split: sum.split option.split)

lemma UpdateTask_stored:
  assumes "UpdateTask w j title description priority = (Inr t', w')"
  shows "fst (GetTask w' i) = (if i = j then Inr t' else fst (GetTask w i))"
proof -
  from UpdateTask_Inr [OF assms] obtain rows old where ne: "j \<noteq> ''''"
    and tbl: "tasks_tbl (db w) = Some rows"
    and found: "find (\<lambda>r. ID r = j) rows = Some old"
    and t': "t' = old\<lparr>Title := (if title \<noteq> '''' then title else Title old),
                   Description := (if description \<noteq> '''' then description else Description old),
                   Priority := (if priority \<noteq> '''' then priority else Priority old),
                   UpdatedAt := clock w (ticks w)\<rparr>"
    and tbl': "tasks_tbl (db w') = Some (map (\<lambda>r. if ID r = j then set_columns t' r else r) rows)"
    by blast
  have id: "ID t' = j"
    using found t' find_ID [of j rows old] by simp
  have same: "set_columns t' old = t'"
    by (simp add: set_columns_def t')
  show ?thesis
  proof (cases "i = j")
    case True
    then show ?thesis
      using find_map_set_columns [OF found id] ne tbl' id same
      by (simp add: GetTask_table)
  next
    case other: False
    show ?thesis
    proof (cases "i = ''''")
      case True
      then show ?thesis using other by (simp add: GetTask_def)
    next
      case False
      then show ?thesis
        using find_map_other [of i t' rows] other tbl tbl' id
        by (simp add: GetTask_table)
    qed
  qed
qed

text \<open>
  Claim C10.  Through \<^verbatim>\<open>UpdateTask\<close> no field can be set to the empty string.  For an
  existing task, on every successful call an empty title, description or priority
  argument keeps the existing value; the title and the priority returned are never
  empty, and a description that was non-empty stays non-empty.  Moreover, after any call
  of \<^verbatim>\<open>UpdateTask\<close> at all (on this task or another one, successful or not), a task whose
  description was non-empty is still stored with a non-empty description, although
  \<^verbatim>\<open>Validate\<close> does not look at the description and so admits an empty one.
\<close>

theorem UpdateTask_never_clears:
  assumes "fst (GetTask w i) = Inr old"
  shows "(\<forall>t' w'. UpdateTask w i title description priority = (Inr t', w') \<longrightarrow>
            (title = '''' \<longrightarrow> Title t' = Title old)
          \<and> (description = '''' \<longrightarrow> Description t' = Description old)
          \<and> (priority = '''' \<longrightarrow> Priority t' = Priority old)
          \<and> Title t' \<noteq> '''' \<and> Priority t' \<noteq> ''''
          \<and> (Description old \<noteq> '''' \<longrightarrow> Description t' \<noteq> ''''))
       \<and> (Description old \<noteq> '''' \<longrightarrow>
            (\<exists>t. fst (GetTask (snd (UpdateTask w j title description priority)) i) = Inr t
                 \<and> Description t \<noteq> ''''))
       \<and> Validate (old\<lparr>Description := ''''\<rparr>) = Validate old"
proof (intro conjI allI impI)
  fix t' w'
  assume run: "UpdateTask w i title description priority = (Inr t', w')"
  from UpdateTask_Inr [OF run] obtain rows old' where ne: "i \<noteq> ''''"
    and tbl: "tasks_tbl (db w) = Some rows"
    and found: "find (\<lambda>r. ID r = i) rows = Some old'"
    and t': "t' = old'\<lparr>Title := (if title \<noteq> '''' then title else Title old'),
                   Description := (if description \<noteq> '''' then description else Description old'),
                   Priority := (if priority \<noteq> '''' then priority else Priority old'),
                   UpdatedAt := clock w (ticks w)\<rparr>"
    and valid: "Validate t' = None"
    by blast
  have old: "old' = old"
    using assms ne tbl found by (simp add: GetTask_table)
  show "title = '''' \<Longrightarrow> Title t' = Title old"
    and "description = '''' \<Longrightarrow> Description t' = Description old"
    and "priority = '''' \<Longrightarrow> Priority t' = Priority old"
    and "Description old \<noteq> '''' \<Longrightarrow> Description t' \<noteq> ''''"
    using old by (simp_all add: t')
  show "Title t' \<noteq> ''''" and "Priority t' \<noteq> ''''"
    using valid by (auto simp: Validate_None)
next
  assume nonempty: "Description old \<noteq> ''''"
  let ?r = "UpdateTask w j title description priority"
  show "\<exists>t. fst (GetTask (snd ?r) i) = Inr t \<and> Description t \<noteq> ''''"
  proof (cases "fst ?r")
    case (Inl e)
    then have "?r = (Inl e, snd ?r)"
      by (metis prod.collapse)
    then have "db (snd ?r) = db w"
      by (rule UpdateTask_Inl_db)
    then show ?thesis
      using assms nonempty GetTask_db [of "snd ?r" w i] by simp
  next
    case (Inr t')
    then have run: "?r = (Inr t', snd ?r)"
      by (metis prod.collapse)
    show ?thesis
    proof (cases "i = j")
      case True
      from UpdateTask_Inr [OF run] obtain rows old' where ne: "j \<noteq> ''''"
        and tbl: "tasks_tbl (db w) = Some rows"
        and found: "find (\<lambda>r. ID r = j) rows = Some old'"
        and t': "t' = old'\<lparr>Title := (if title \<noteq> '''' then title else Title old'),
                   Description := (if description \<noteq> '''' then description else Description old'),
                   Priority := (if priority \<noteq> '''' then priority else Priority old'),
                   UpdatedAt := clock w (ticks w)\<rparr>"
        by blast
      have "old' = old"
        using assms ne tbl found True by (simp add: GetTask_table)
      then have "Description t' \<noteq> ''''"
        using nonempty by (simp add: t')
      then show ?thesis
        using UpdateTask_stored [OF run, of i] True by simp
    next
      case False
      then show ?thesis
        using UpdateTask_stored [OF run, of i] assms nonempty by simp
    qed
  qed
next
  show "Validate (old\<lparr>Description := ''''\<rparr>) = Validate old"
    by (simp add: Validate_def)
qed

theorem UpdateTask_never_clears_witness:
  "fst (GetTask (example_world [example_pending]) ''task-1'') = Inr example_pending
   \<and> Description example_pending \<noteq> ''''
   \<and> fst (UpdateTask (example_world [example_pending]) ''task-1'' '''' '''' ''high'')
       = Inr (example_pending\<lparr>Priority := ''high'', UpdatedAt := Time 1000 0\<rparr>)
   \<and> Description (example_pending\<lparr>Priority := ''high'', UpdatedAt := Time 1000 0\<rparr>) = ''two litres''
   \<and> (\<exists>t. fst (GetTask (snd (UpdateTask (example_world [example_pending])
                               ''task-1'' '''' '''' ''high'')) ''task-1'') = Inr t
          \<and> Description t \<noteq> '''')"
proof -
  let ?w = "example_world [example_pending]"
  let ?t = "example_pending\<lparr>Priority := ''high'', UpdatedAt := Time 1000 0\<rparr>"
  have before: "fst (GetTask ?w ''task-1'') = Inr example_pending"
    by (simp add: service_defs store_defs example_defs Let_def)
  have d: "Description example_pending \<noteq> ''''"
    by (simp add: example_pending_def)
  have run: "fst (UpdateTask ?w ''task-1'' '''' '''' ''high'') = Inr ?t"
    by (simp add: service_defs store_defs constant_defs example_defs Let_def)
  from UpdateTask_never_clears [OF before, of "''''" "''''" "''high''" "''task-1''"] d before run
  show ?thesis
    by (simp add: example_pending_def)
qed

section \<open>Completing a task\<close>

lemma CompleteTask_completed:
  assumes "i \<noteq> ''''" and "tasks_tbl (db w) = Some rows"
    and "find (\<lambda>r. ID r = i) rows = Some t" and "Status t = TaskStatusCompleted"
  shows "CompleteTask w i = (Inr t, send (SelectTaskByID i) w)"
  using assms by (simp add: CompleteTask_def GetByID_table)

lemma CompleteTask_pending:
  assumes "i \<noteq> ''''" and "tasks_tbl (db w) = Some rows"
    and "find (\<lambda>r. ID r = i) rows = Some t" and "Status t \<noteq> TaskStatusCompleted"
    and "Priority t = ''low'' \<or> Priority t = ''medium'' \<or> Priority t = ''high''"
    and "t1 = t\<lparr>Status := TaskStatusCompleted, CompletedAt := Some (clock w (ticks w)),
                 UpdatedAt := clock w (ticks w)\<rparr>"
    and "w2 = (send (SelectTaskByID i) w)\<lparr>ticks := Suc (ticks w)\<rparr>"
  shows "CompleteTask w i =
     (Inr t1, (send (UpdateTaskRow i) (send (SelectTaskByID i) w2))\<lparr>db :=
         (db w)\<lparr>tasks_tbl := Some (map (\<lambda>r. if ID r = i then set_columns t1 r else r) rows)\<rparr>\<rparr>)"
proof -
  have id: "ID t = i" "ID t1 = i"
    using assms(3,6) find_ID [of i rows t] by simp_all
  have tbl2: "tasks_tbl (db w2) = Some rows"
    using assms(2,7) by simp
  have in_tbl: "ID t1 \<in> set (map ID rows)"
    using assms(3) id find_None_ID [of i rows] by auto
  have chk: "check_clauses t1"
    using assms(5,6) by (simp add: check_clauses_def TaskStatusCompleted_def)
  have upd: "Update w2 t1 =
      (None, (send (UpdateTaskRow i) (send (SelectTaskByID i) w2))\<lparr>db :=
         (db w)\<lparr>tasks_tbl := Some (map (\<lambda>r. if ID r = i then set_columns t1 r else r) rows)\<rparr>\<rparr>)"
    using Update_table [OF tbl2, of t1] in_tbl chk id assms(7) by simp
  have mark: "MarkCompleted (send (SelectTaskByID i) w) t = (t1, w2)"
    by (simp add: MarkCompleted_def time_Now_def assms(6,7))
  show ?thesis
    using assms(1,2,3,4) mark upd
    by (simp add: CompleteTask_def GetByID_table)
qed

text \<open>
  Claim C4.  \<^verbatim>\<open>CompleteTask\<close> is idempotent.  For a non-empty id naming a stored task:
  if the task is already completed, the call returns that very task without error, after
  a single \<^verbatim>\<open>SELECT\<close>: the database is unchanged and the clock has not been read.  If the
  task is not completed (and its priority is one the schema admits), the call returns the
  task with status completed and with \<^verbatim>\<open>CompletedAt\<close> and \<^verbatim>\<open>UpdatedAt\<close> both set to the
  reading of the clock, stores it, and a second call on the resulting world returns the
  same task, with the same \<^verbatim>\<open>CompletedAt\<close>, again after a single \<^verbatim>\<open>SELECT\<close>.
\<close>

theorem CompleteTask_idempotent:
  assumes "i \<noteq> ''''" and "tasks_tbl (db w) = Some rows"
    and "find (\<lambda>r. ID r = i) rows = Some t"
  shows "(Status t = TaskStatusCompleted \<longrightarrow>
            CompleteTask w i = (Inr t, send (SelectTaskByID i) w)
          \<and> db (snd (CompleteTask w i)) = db w
          \<and> ticks (snd (CompleteTask w i)) = ticks w)
       \<and> (Status t \<noteq> TaskStatusCompleted
          \<and> (Priority t = ''low'' \<or> Priority t = ''medium'' \<or> Priority t = ''high'') \<longrightarrow>
            (\<exists>w1. CompleteTask w i =
                     (Inr (t\<lparr>Status := TaskStatusCompleted,
                              CompletedAt := Some (clock w (ticks w)),
                              UpdatedAt := clock w (ticks w)\<rparr>), w1)
                 \<and> fst (GetTask w1 i) =
                     Inr (t\<lparr>Status := TaskStatusCompleted,
                             CompletedAt := Some (clock w (ticks w)),
                             UpdatedAt := clock w (ticks w)\<rparr>)
                 \<and> CompleteTask w1 i =
                     (Inr (t\<lparr>Status := TaskStatusCompleted,
                              CompletedAt := Some (clock w (ticks w)),
                              UpdatedAt := clock w (ticks w)\<rparr>), send (SelectTaskByID i) w1)))"
proof (intro conjI impI)
  assume completed: "Status t = TaskStatusCompleted"
  show "CompleteTask w i = (Inr t, send (SelectTaskByID i) w)"
    by (rule CompleteTask_completed [OF assms completed])
  then show "db (snd (CompleteTask w i)) = db w"
    and "ticks (snd (CompleteTask w i)) = ticks w"
    by simp_all
next
  assume pending: "Status t \<noteq> TaskStatusCompleted
     \<and> (Priority t = ''low'' \<or> Priority t = ''medium'' \<or> Priority t = ''high'')"
  define t1 where "t1 = t\<lparr>Status := TaskStatusCompleted, CompletedAt := Some (clock w (ticks w)),
                 UpdatedAt := clock w (ticks w)\<rparr>"
  define w2 where "w2 = (send (SelectTaskByID i) w)\<lparr>ticks := Suc (ticks w)\<rparr>"
  define w1 where "w1 = (send (UpdateTaskRow i) (send (SelectTaskByID i) w2))\<lparr>db :=
         (db w)\<lparr>tasks_tbl := Some (map (\<lambda>r. if ID r = i then set_columns t1 r else r) rows)\<rparr>\<rparr>"
  have run: "CompleteTask w i = (Inr t1, w1)"
    unfolding w1_def
    using pending by (intro CompleteTask_pending [OF assms _ _ t1_def w2_def]) simp_all
  have id: "ID t1 = i"
    using assms(3) find_ID [of i rows t] by (simp add: t1_def)
  have tbl1: "tasks_tbl (db w1) = Some (map (\<lambda>r. if ID r = ID t1 then set_columns t1 r else r) rows)"
    by (simp add: w1_def id)
  have same: "set_columns t1 t = t1"
    by (simp add: set_columns_def t1_def)
  have found1: "find (\<lambda>r. ID r = i) (map (\<lambda>r. if ID r = ID t1 then set_columns t1 r else r) rows)
                = Some t1"
    using find_map_set_columns [OF assms(3) id] same by simp
  have get: "fst (GetTask w1 i) = Inr t1"
    using assms(1) tbl1 found1 by (simp add: GetTask_table)
  have again: "CompleteTask w1 i = (Inr t1, send (SelectTaskByID i) w1)"
    by (rule CompleteTask_completed [OF assms(1) tbl1 found1]) (simp add: t1_def)
  show "\<exists>w1. CompleteTask w i =
                     (Inr (t\<lparr>Status := TaskStatusCompleted,
                              CompletedAt := Some (clock w (ticks w)),
                              UpdatedAt := clock w (ticks w)\<rparr>), w1)
                 \<and> fst (GetTask w1 i) =
                     Inr (t\<lparr>Status := TaskStatusCompleted,
                             CompletedAt := Some (clock w (ticks w)),
                             UpdatedAt := clock w (ticks w)\<rparr>)
                 \<and> CompleteTask w1 i =
                     (Inr (t\<lparr>Status := TaskStatusCompleted,
                              CompletedAt := Some (clock w (ticks w)),
                              UpdatedAt := clock w (ticks w)\<rparr>), send (SelectTaskByID i) w1)"
    using run get again unfolding t1_def by blast
qed

theorem CompleteTask_idempotent_witness:
  "CompleteTask (example_world [example_pending, example_completed]) ''task-2''
     = (Inr example_completed,
        send (SelectTaskByID ''task-2'') (example_world [example_pending, example_completed]))
   \<and> (\<exists>w1. CompleteTask (example_world [example_pending, example_completed]) ''task-1''
            = (Inr (example_pending\<lparr>Status := ''completed'', CompletedAt := Some (Time 1000 0),
                                   UpdatedAt := Time 1000 0\<rparr>), w1)
          \<and> CompleteTask w1 ''task-1''
            = (Inr (example_pending\<lparr>Status := ''completed'', CompletedAt := Some (Time 1000 0),
                                   UpdatedAt := Time 1000 0\<rparr>), send (SelectTaskByID ''task-1'') w1))"
proof -
  let ?w = "example_world [example_pending, example_completed]"
  have ne: "''task-2'' \<noteq> ''''" "''task-1'' \<noteq> ''''" by simp_all
  have tbl: "tasks_tbl (db ?w) = Some [example_pending, example_completed]" by simp
  have f2: "find (\<lambda>r. ID r = ''task-2'') [example_pending, example_completed]
            = Some example_completed"
    and f1: "find (\<lambda>r. ID r = ''task-1'') [example_pending, example_completed]
            = Some example_pending"
    by (simp_all add: example_defs)
  have s2: "Status example_completed = TaskStatusCompleted"
    and s1: "Status example_pending \<noteq> TaskStatusCompleted
       \<and> (Priority example_pending = ''low'' \<or> Priority example_pending = ''medium''
          \<or> Priority example_pending = ''high'')"
    by (simp_all add: example_defs TaskStatusCompleted_def)
  from CompleteTask_idempotent [OF ne(1) tbl f2] CompleteTask_idempotent [OF ne(2) tbl f1] s1 s2
  show ?thesis
    by (auto simp: example_clock_def TaskStatusCompleted_def)
qed

section \<open>Listing tasks\<close>

lemma satisfies_empty_filter: "satisfies_filter empty_filter r"
  by (simp add: satisfies_filter_def empty_filter_def)

lemma List_table:
  assumes "tasks_tbl (db w) = Some rows"
  shows "List w f =
     (Inr (rev (sort_key (\<lambda>r. sqlite_text (CreatedAt r)) (filter (where_clause f) rows))),
      send (SelectTasks f) w)"
  using assms by (simp add: List_def sql_select_tasks_def Let_def)

text \<open>What \<^verbatim>\<open>List\<close> does on a database that has the table: it returns without error the
  rows that pass the \<^verbatim>\<open>WHERE\<close> clause, each as often as it is in the table, in descending
  order of the stored text of \<^verbatim>\<open>created_at\<close>; with no filter field set every row is
  returned, and when no row passes the result is the empty list.\<close>

lemma List_by_stored_text:
  assumes "tasks_tbl (db w) = Some rows"
  shows "\<exists>res. List w f = (Inr res, send (SelectTasks f) w)
     \<and> fst (ListTasks w f) = Inr res
     \<and> mset res = filter_mset (where_clause f) (mset rows)
     \<and> sorted (rev (map (\<lambda>r. sqlite_text (CreatedAt r)) res))
     \<and> (f = empty_filter \<longrightarrow> mset res = mset rows)
     \<and> ((\<forall>r \<in> set rows. \<not> where_clause f r) \<longrightarrow> res = [])"
proof -
  let ?res = "rev (sort_key (\<lambda>r. sqlite_text (CreatedAt r)) (filter (where_clause f) rows))"
  have run: "List w f = (Inr ?res, send (SelectTasks f) w)"
    by (rule List_table [OF assms])
  then have svc: "fst (ListTasks w f) = Inr ?res"
    by (simp add: ListTasks_def)
  have m: "mset ?res = filter_mset (where_clause f) (mset rows)"
    by simp
  have s: "sorted (rev (map (\<lambda>r. sqlite_text (CreatedAt r)) ?res))"
    by (simp add: rev_map [symmetric])
  have e: "f = empty_filter \<longrightarrow> mset ?res = mset rows"
    by (simp add: where_clause_def empty_filter_def)
  have n: "(\<forall>r \<in> set rows. \<not> where_clause f r) \<longrightarrow> ?res = []"
  proof
    assume "\<forall>r \<in> set rows. \<not> where_clause f r"
    then have "filter (where_clause f) rows = []"
      by (simp add: filter_empty_conv)
    then show "?res = []" by simp
  qed
  show ?thesis
    using run svc m s e n by blast
qed

text \<open>
  Claim C5.  The claim says that \<^verbatim>\<open>List\<close> returns the rows whose \<^verbatim>\<open>created_at\<close> lies
  within the inclusive bounds of the filter, newest first.  The table holds two tasks:
  \<^verbatim>\<open>task-east\<close>, created at 08:00 UTC by a process whose zone is two hours east (its
  text reads 10:00:00+02:00), and \<^verbatim>\<open>task-utc\<close>, created an hour later, at 09:00 UTC, by a
  process in UTC (09:00:00+00:00).  With the empty filter \<^verbatim>\<open>List\<close> returns \<^verbatim>\<open>task-east\<close>
  first although it is the older one.  With the lower bound 09:30 UTC, which neither task
  reaches, \<^verbatim>\<open>List\<close> returns \<^verbatim>\<open>task-east\<close>, a row that does not satisfy the filter.
\<close>

theorem List_compares_stored_text:
  "fst (List (example_world [example_east, example_utc]) empty_filter)
     = Inr [example_east, example_utc]
   \<and> CreatedAt example_east < CreatedAt example_utc
   \<and> fst (List (example_world [example_east, example_utc])
            (empty_filter\<lparr>FromDate := Some (Time 34200000000000 0)\<rparr>))
     = Inr [example_east]
   \<and> \<not> satisfies_filter (empty_filter\<lparr>FromDate := Some (Time 34200000000000 0)\<rparr>)
          example_east
   \<and> CreatedAt example_east < Time 34200000000000 0"
  by (simp add: List_def sql_select_tasks_def where_clause_def satisfies_filter_def
      empty_filter_def example_east_def example_utc_def sqlite_text_def fraction_text_def
      offset_text_def digits2_def digit_def Let_def less_time_def less_eq_time_def)

section \<open>Writes that affect no row\<close>

lemma Delete_table:
  assumes "tasks_tbl (db w) = Some rows"
  shows "Delete w i =
     (if i \<notin> set (map ID rows)
      then (Some ErrTaskNotFound, (send (DeleteTaskRow i) w)\<lparr>db := (db w)\<lparr>tasks_tbl := Some rows\<rparr>\<rparr>)
      else (None, (send (DeleteTaskRow i) w)\<lparr>db :=
              (db w)\<lparr>tasks_tbl := Some (filter (\<lambda>r. ID r \<noteq> i) rows)\<rparr>\<rparr>))"
proof -
  have same: "i \<notin> set (map ID rows) \<Longrightarrow> filter (\<lambda>r. ID r \<noteq> i) rows = rows"
    by (induction rows) auto
  show ?thesis
    using assms same count_zero_ID [of i rows]
    by (auto simp: Delete_def sql_delete_task_def Let_def)
qed

lemma Delete_NotFound_zero_rows:
  "(fst (Delete w i) = Some ErrTaskNotFound) = (\<exists>d. sql_delete_task (db w) i = Inr (0, d))"
  by (auto simp: Delete_def Let_def split: sum.splits prod.splits)

lemma Update_write_NotFound_zero_rows:
  "(fst (Update_write w t) = Some ErrTaskNotFound) = (\<exists>d. sql_update_task (db w) t = Inr (0, d))"
  by (auto simp: Update_write_def Let_def split: sum.splits prod.splits)

text \<open>
  Claim C8.  The store's \<^verbatim>\<open>Delete\<close>, and the write of the store's \<^verbatim>\<open>Update\<close>, return the
  sentinel \<^verbatim>\<open>ErrTaskNotFound\<close> itself exactly when the statement executes and affects zero
  rows.  On a database that has the \<^verbatim>\<open>tasks\<close> table this is exactly when no row has the
  id: then \<^verbatim>\<open>Delete\<close>, the write of \<^verbatim>\<open>Update\<close>, and \<^verbatim>\<open>Update\<close> as a whole (whose existence
  check already answers so) return \<^verbatim>\<open>ErrTaskNotFound\<close>, and when a row has the id they do
  not; \<^verbatim>\<open>Delete\<close> then succeeds.  \<^verbatim>\<open>DeleteTask\<close> passes the store's answer on unchanged.
\<close>

theorem NotFound_iff_no_row:
  "(fst (Delete w i) = Some ErrTaskNotFound \<longleftrightarrow> (\<exists>d. sql_delete_task (db w) i = Inr (0, d)))
   \<and> (fst (Update_write w t) = Some ErrTaskNotFound
        \<longleftrightarrow> (\<exists>d. sql_update_task (db w) t = Inr (0, d)))
   \<and> (tasks_tbl (db w) = Some rows \<longrightarrow>
         (fst (Delete w i) = Some ErrTaskNotFound \<longleftrightarrow> i \<notin> set (map ID rows))
       \<and> (fst (Delete w i) = None \<longleftrightarrow> i \<in> set (map ID rows))
       \<and> (fst (Update_write w t) = Some ErrTaskNotFound \<longleftrightarrow> ID t \<notin> set (map ID rows))
       \<and> (fst (Update w t) = Some ErrTaskNotFound \<longleftrightarrow> ID t \<notin> set (map ID rows))
       \<and> (fst (Update w t) = None \<longrightarrow> ID t \<in> set (map ID rows))
       \<and> (i \<noteq> '''' \<longrightarrow> fst (DeleteTask w i) = fst (Delete w i)))"
proof (intro conjI impI)
  show "fst (Delete w i) = Some ErrTaskNotFound \<longleftrightarrow> (\<exists>d. sql_delete_task (db w) i = Inr (0, d))"
    by (rule Delete_NotFound_zero_rows)
  show "fst (Update_write w t) = Some ErrTaskNotFound
        \<longleftrightarrow> (\<exists>d. sql_update_task (db w) t = Inr (0, d))"
    by (rule Update_write_NotFound_zero_rows)
next
  assume tbl: "tasks_tbl (db w) = Some rows"
  show "fst (Delete w i) = Some ErrTaskNotFound \<longleftrightarrow> i \<notin> set (map ID rows)"
    and "fst (Delete w i) = None \<longleftrightarrow> i \<in> set (map ID rows)"
    by (simp_all add: Delete_table [OF tbl])
  show "fst (Update_write w t) = Some ErrTaskNotFound \<longleftrightarrow> ID t \<notin> set (map ID rows)"
    by (simp add: Update_write_table [OF tbl])
  show "fst (Update w t) = Some ErrTaskNotFound \<longleftrightarrow> ID t \<notin> set (map ID rows)"
    by (simp add: Update_table [OF tbl])
  show "ID t \<in> set (map ID rows)" if "fst (Update w t) = None"
    using that by (simp add: Update_table [OF tbl] split: if_splits)
  show "fst (DeleteTask w i) = fst (Delete w i)" if "i \<noteq> ''''"
    using that by (simp add: DeleteTask_def split: prod.split option.split)
qed

theorem NotFound_iff_no_row_witness:
  "fst (Delete (example_world [example_pending]) ''task-9'') = Some ErrTaskNotFound
   \<and> fst (Delete (example_world [example_pending]) ''task-1'') = None
   \<and> fst (Update (example_world [example_pending]) example_completed) = Some ErrTaskNotFound
   \<and> fst (Update_write (example_world [example_pending]) example_completed)
       = Some ErrTaskNotFound
   \<and> fst (Update (example_world [example_pending]) (example_pending\<lparr>Title := ''Buy tea''\<rparr>))
       \<noteq> Some ErrTaskNotFound
   \<and> fst (DeleteTask (example_world [example_pending]) ''task-9'') = Some ErrTaskNotFound"
proof -
  let ?w = "example_world [example_pending]"
  have tbl: "tasks_tbl (db ?w) = Some [example_pending]" by simp
  have ne: "''task-9'' \<noteq> ''''" by simp
  from NotFound_iff_no_row [of ?w "''task-9''" example_completed "[example_pending]"]
    NotFound_iff_no_row [of ?w "''task-1''" "example_pending\<lparr>Title := ''Buy tea''\<rparr>"
      "[example_pending]"] tbl ne
  show ?thesis
    by (simp add: example_defs)
qed

section \<open>Completed-at is set exactly on completed tasks\<close>



lemma store_inv_table:
  "tasks_tbl (db w) = Some rows \<Longrightarrow> store_inv w = (\<forall>r \<in> set rows. task_inv r)"
  by (simp add: store_inv_def list_all_iff)

lemma Create_no_table:
  assumes "tasks_tbl (db w) = None"
  shows "Create w task =
     (Some (Errorf ''failed to create task'' (DriverError NoSuchTable)),
      send (InsertTask (ID task)) w)"
  using assms by (simp add: Create_def sql_insert_task_def Let_def)

lemma Create_table:
  assumes "tasks_tbl (db w) = Some rows"
  shows "Create w task =
     (if \<not> check_clauses task
      then (Some (Errorf ''failed to create task'' (DriverError ConstraintCheck)),
            send (InsertTask (ID task)) w)
      else if ID task \<in> set (map ID rows)
      then (Some (Errorf ''failed to create task'' (DriverError ConstraintPrimaryKey)),
            send (InsertTask (ID task)) w)
      else (None, (send (InsertTask (ID task)) w)\<lparr>db :=
              (db w)\<lparr>tasks_tbl := Some (rows @ [task])\<rparr>\<rparr>))"
  using assms by (simp add: Create_def sql_insert_task_def Let_def)

lemma CreateTask_unfold:
  "CreateTask w title description priority =
     (case Validate \<lparr>ID = uuids w (drawn w), Title = title, Description = description,
                   Status = TaskStatusPending, Priority = priority,
                   CreatedAt = clock w (ticks w), UpdatedAt = clock w (Suc (ticks w)),
                   CompletedAt = None\<rparr> of
        Some err \<Rightarrow> (Inl (Errorf ''task validation failed'' err),
                     w\<lparr>drawn := Suc (drawn w), ticks := Suc (Suc (ticks w))\<rparr>)
      | None \<Rightarrow>
          (case Create (w\<lparr>drawn := Suc (drawn w), ticks := Suc (Suc (ticks w))\<rparr>)
                  \<lparr>ID = uuids w (drawn w), Title = title, Description = description,
                   Status = TaskStatusPending, Priority = priority,
                   CreatedAt = clock w (ticks w), UpdatedAt = clock w (Suc (ticks w)),
                   CompletedAt = None\<rparr> of
             (Some err, w4) \<Rightarrow> (Inl (Errorf ''failed to create task'' err), w4)
           | (None, w4) \<Rightarrow>
               (Inr \<lparr>ID = uuids w (drawn w), Title = title, Description = description,
                   Status = TaskStatusPending, Priority = priority,
                   CreatedAt = clock w (ticks w), UpdatedAt = clock w (Suc (ticks w)),
                   CompletedAt = None\<rparr>, w4)))"
  by (simp add: CreateTask_def uuid_New_def time_Now_def Let_def
      cong: option.case_cong prod.case_cong)


lemma CreateTask_inv:
  assumes "store_inv w"
  shows "store_inv (snd (CreateTask w title description priority))
       \<and> (\<forall>t. fst (CreateTask w title description priority) = Inr t \<longrightarrow> task_inv t)"
proof -
  define task where "task = \<lparr>ID = uuids w (drawn w), Title = title, Description = description,
                   Status = TaskStatusPending, Priority = priority,
                   CreatedAt = clock w (ticks w), UpdatedAt = clock w (Suc (ticks w)),
                   CompletedAt = None\<rparr>"
  define w3 where "w3 = w\<lparr>drawn := Suc (drawn w), ticks := Suc (Suc (ticks w))\<rparr>"
  have inv: "task_inv task"
    by (simp add: task_inv_def task_def TaskStatusPending_def TaskStatusCompleted_def)
  have db3: "db w3 = db w"
    by (simp add: w3_def)
  then have inv3: "store_inv w3"
    using assms by (simp add: store_inv_def)
  have unf: "CreateTask w title description priority =
      (case Validate task of
         Some err \<Rightarrow> (Inl (Errorf ''task validation failed'' err), w3)
       | None \<Rightarrow>
           (case Create w3 task of
              (Some err, w4) \<Rightarrow> (Inl (Errorf ''failed to create task'' err), w4)
            | (None, w4) \<Rightarrow> (Inr task, w4)))"
    unfolding task_def w3_def by (rule CreateTask_unfold)
  show ?thesis
  proof (cases "Validate task")
    case (Some err)
    then show ?thesis
      using unf inv3 by simp
  next
    case valid: None
    show ?thesis
    proof (cases "tasks_tbl (db w3)")
      case None
      then show ?thesis
        using unf valid inv3 by (simp add: Create_no_table store_inv_def)
    next
      case (Some rows)
      have rows: "\<forall>r \<in> set rows. task_inv r"
        using inv3 by (simp add: store_inv_table [OF Some])
      show ?thesis
      proof (cases "ID task \<in> set (map ID rows)")
        case True
        then show ?thesis
          using unf valid inv3 Validate_check [OF valid]
          by (simp add: Create_table [OF Some] store_inv_def)
      next
        case False
        then show ?thesis
          using unf valid rows inv Validate_check [OF valid]
          by (simp add: Create_table [OF Some] store_inv_def list_all_iff)
      qed
    qed
  qed
qed

lemma GetTask_inv:
  assumes "store_inv w"
  shows "store_inv (snd (GetTask w i)) \<and> (\<forall>t. fst (GetTask w i) = Inr t \<longrightarrow> task_inv t)"
proof -
  have "db (snd (GetTask w i)) = db w"
    by (simp add: GetTask_def GetByID_def Let_def split: sum.split option.split)
  then have world: "store_inv (snd (GetTask w i))"
    using assms by (simp add: store_inv_def)
  have "task_inv t" if "fst (GetTask w i) = Inr t" for t
  proof (cases "tasks_tbl (db w)")
    case None
    with that show ?thesis
      by (simp add: GetTask_def GetByID_no_table split: if_splits)
  next
    case (Some rows)
    with that have "find (\<lambda>r. ID r = i) rows = Some t"
      by (simp add: GetTask_def GetByID_table split: if_splits option.splits)
    then show ?thesis
      using assms find_ID [of i rows t] by (simp add: store_inv_table [OF Some])
  qed
  with world show ?thesis by simp
qed

lemma ListTasks_inv:
  assumes "store_inv w"
  shows "store_inv (snd (ListTasks w f))
       \<and> (\<forall>ts. fst (ListTasks w f) = Inr ts \<longrightarrow> (\<forall>t \<in> set ts. task_inv t))"
proof (cases "tasks_tbl (db w)")
  case None
  then show ?thesis
    using assms by (simp add: ListTasks_def List_def sql_select_tasks_def Let_def store_inv_def)
next
  case (Some rows)
  have "ListTasks w f =
      (Inr (rev (sort_key (\<lambda>r. sqlite_text (CreatedAt r)) (filter (where_clause f) rows))),
       send (SelectTasks f) w)"
    by (simp add: ListTasks_def List_table [OF Some])
  then show ?thesis
    using assms Some by (simp add: store_inv_def list_all_iff)
qed

lemma DeleteTask_inv:
  assumes "store_inv w"
  shows "store_inv (snd (DeleteTask w i))"
proof (cases "i = ''''")
  case True
  then show ?thesis using assms by (simp add: DeleteTask_def)
next
  case ne: False
  have world: "snd (DeleteTask w i) = snd (Delete w i)"
    using ne by (simp add: DeleteTask_def split: prod.split option.split)
  show ?thesis
  proof (cases "tasks_tbl (db w)")
    case None
    then show ?thesis
      using assms world by (simp add: Delete_def sql_delete_task_def Let_def store_inv_def)
  next
    case (Some rows)
    then show ?thesis
      using assms world by (simp add: Delete_table [OF Some] store_inv_def list_all_iff)
  qed
qed

lemma UpdateTask_inv:
  assumes "store_inv w"
  shows "store_inv (snd (UpdateTask w i title description priority))
       \<and> (\<forall>t. fst (UpdateTask w i title description priority) = Inr t \<longrightarrow> task_inv t)"
proof (cases "fst (UpdateTask w i title description priority)")
  case (Inl e)
  then have "UpdateTask w i title description priority
             = (Inl e, snd (UpdateTask w i title description priority))"
    by (metis prod.collapse)
  then have "db (snd (UpdateTask w i title description priority)) = db w"
    by (rule UpdateTask_Inl_db)
  then show ?thesis
    using assms Inl by (simp add: store_inv_def)
next
  case (Inr t')
  let ?w' = "snd (UpdateTask w i title description priority)"
  from Inr have run: "UpdateTask w i title description priority = (Inr t', ?w')"
    by (metis prod.collapse)
  from UpdateTask_Inr [OF run] obtain rows old where
    tbl: "tasks_tbl (db w) = Some rows"
    and found: "find (\<lambda>r. ID r = i) rows = Some old"
    and t': "t' = old\<lparr>Title := (if title \<noteq> '''' then title else Title old),
                   Description := (if description \<noteq> '''' then description else Description old),
                   Priority := (if priority \<noteq> '''' then priority else Priority old),
                   UpdatedAt := clock w (ticks w)\<rparr>"
    and tbl': "tasks_tbl (db ?w') = Some (map (\<lambda>r. if ID r = i then set_columns t' r else r) rows)"
    by blast
  have rows: "\<forall>r \<in> set rows. task_inv r"
    using assms by (simp add: store_inv_table [OF tbl])
  then have "task_inv old"
    using find_ID [OF found] by simp
  then have inv': "task_inv t'"
    by (simp add: task_inv_def t')
  then have "task_inv (set_columns t' r)" for r
    by (simp add: task_inv_def set_columns_def)
  then have "store_inv ?w'"
    using rows by (auto simp: store_inv_table [OF tbl'])
  then show ?thesis
    using Inr inv' by simp
qed

lemma Update_inv:
  assumes "store_inv w" and "task_inv task"
  shows "store_inv (snd (Update w task))"
proof (cases "tasks_tbl (db w)")
  case None
  then show ?thesis
    using assms by (simp add: Update_def GetByID_no_table store_inv_def)
next
  case (Some rows)
  have rows: "\<forall>r \<in> set rows. task_inv r"
    using assms(1) by (simp add: store_inv_table [OF Some])
  have cols: "task_inv (set_columns task r)" for r
    using assms(2) by (simp add: task_inv_def set_columns_def)
  have "list_all task_inv (map (\<lambda>r. if ID r = ID task then set_columns task r else r) rows)"
    using rows cols by (auto simp: list_all_iff)
  then show ?thesis
    using assms(1) Some by (simp add: Update_table [OF Some] store_inv_def)
qed

lemma CompleteTask_inv:
  assumes "store_inv w"
  shows "store_inv (snd (CompleteTask w i))
       \<and> (\<forall>t. fst (CompleteTask w i) = Inr t \<longrightarrow> task_inv t)"
proof (cases "i = ''''")
  case True
  then show ?thesis
    using assms by (simp add: CompleteTask_def)
next
  case ne: False
  show ?thesis
  proof (cases "tasks_tbl (db w)")
    case None
    then show ?thesis
      using assms ne by (simp add: CompleteTask_def GetByID_no_table store_inv_def)
  next
    case (Some rows)
    show ?thesis
    proof (cases "find (\<lambda>r. ID r = i) rows")
      case None
      then show ?thesis
        using assms ne Some by (simp add: CompleteTask_def GetByID_table store_inv_def)
    next
      case found: (Some t)
      have t: "task_inv t"
        using assms find_ID [OF found] by (simp add: store_inv_table [OF Some])
      show ?thesis
      proof (cases "Status t = TaskStatusCompleted")
        case True
        then show ?thesis
          using assms t CompleteTask_completed [OF ne Some found True]
          by (simp add: store_inv_def)
      next
        case False
        define t1 where "t1 = t\<lparr>Status := TaskStatusCompleted,
             CompletedAt := Some (clock w (ticks w)), UpdatedAt := clock w (ticks w)\<rparr>"
        define w2 where "w2 = (send (SelectTaskByID i) w)\<lparr>ticks := Suc (ticks w)\<rparr>"
        have t1: "task_inv t1"
          by (simp add: task_inv_def t1_def)
        have w2: "store_inv w2"
          using assms by (simp add: store_inv_def w2_def)
        have mark: "MarkCompleted (send (SelectTaskByID i) w) t = (t1, w2)"
          by (simp add: MarkCompleted_def time_Now_def t1_def w2_def)
        obtain eo w3 where upd: "Update w2 t1 = (eo, w3)"
          by (cases "Update w2 t1")
        have w3: "store_inv w3"
          using Update_inv [OF w2 t1] upd by simp
        have "CompleteTask w i =
            (case eo of Some err \<Rightarrow> (Inl (Errorf ''failed to complete task'' err), w3)
             | None \<Rightarrow> (Inr t1, w3))"
          using ne Some found False mark upd
          by (simp add: CompleteTask_def GetByID_table split: option.split)
        then show ?thesis
          using w3 t1 by (simp split: option.split)
      qed
    qed
  qed
qed

text \<open>
  Claim C7.  Starting from a store whose rows satisfy the invariant (the empty table of a
  freshly migrated database is one), after any sequence of service calls (create, get,
  list, update, complete, delete, with any arguments, succeeding or failing) every task
  returned to a caller and every row stored satisfies the invariant: \<^verbatim>\<open>CompletedAt\<close> is
  set if and only if the status is completed.
\<close>

theorem completed_at_iff_completed:
  assumes "store_inv w"
  shows "(\<forall>t \<in> set (fst (run w calls)). task_inv t) \<and> store_inv (snd (run w calls))"
  using assms
proof (induction calls arbitrary: w)
  case Nil
  then show ?case by simp
next
  case (Cons c calls)
  have step: "(\<forall>t \<in> set (fst (perform w c)). task_inv t) \<and> store_inv (snd (perform w c))"
  proof (cases c)
    case (CallCreate title description priority)
    then show ?thesis
      using CreateTask_inv [OF Cons.prems, of title description priority]
      by (auto split: prod.splits sum.splits)
  next
    case (CallGet i)
    then show ?thesis
      using GetTask_inv [OF Cons.prems, of i]
      by (auto split: prod.splits sum.splits)
  next
    case (CallList f)
    then show ?thesis
      using ListTasks_inv [OF Cons.prems, of f]
      by (auto split: prod.splits sum.splits)
  next
    case (CallUpdate i title description priority)
    then show ?thesis
      using UpdateTask_inv [OF Cons.prems, of i title description priority]
      by (auto split: prod.splits sum.splits)
  next
    case (CallComplete i)
    then show ?thesis
      using CompleteTask_inv [OF Cons.prems, of i]
      by (auto split: prod.splits sum.splits)
  next
    case (CallDelete i)
    then show ?thesis
      using DeleteTask_inv [OF Cons.prems, of i] by simp
  qed
  obtain produced w1 where p: "perform w c = (produced, w1)"
    by (cases "perform w c")
  obtain later w2 where r: "run w1 calls = (later, w2)"
    by (cases "run w1 calls")
  have "store_inv w1" and "\<forall>t \<in> set produced. task_inv t"
    using step p by simp_all
  moreover from Cons.IH [OF \<open>store_inv w1\<close>] r
  have "\<forall>t \<in> set later. task_inv t" and "store_inv w2"
    by simp_all
  ultimately show ?case
    using p r by auto
qed


theorem completed_at_iff_completed_witness:
  "store_inv (example_world [])
   \<and> fst (run (example_world [])
          [CallCreate ''Buy milk'' '''' ''low'', CallComplete ''task-a'',
           CallUpdate ''task-a'' ''Buy oat milk'' '''' '''', CallGet ''task-a''])
     = [\<lparr>ID = ''task-a'', Title = ''Buy milk'', Description = '''', Status = ''pending'',
         Priority = ''low'', CreatedAt = Time 1000 0, UpdatedAt = Time 1010 0, CompletedAt = None\<rparr>,
        \<lparr>ID = ''task-a'', Title = ''Buy milk'', Description = '''', Status = ''completed'',
         Priority = ''low'', CreatedAt = Time 1000 0, UpdatedAt = Time 1020 0, CompletedAt = Some (Time 1020 0)\<rparr>,
        \<lparr>ID = ''task-a'', Title = ''Buy oat milk'', Description = '''', Status = ''completed'',
         Priority = ''low'', CreatedAt = Time 1000 0, UpdatedAt = Time 1030 0, CompletedAt = Some (Time 1020 0)\<rparr>,
        \<lparr>ID = ''task-a'', Title = ''Buy oat milk'', Description = '''', Status = ''completed'',
         Priority = ''low'', CreatedAt = Time 1000 0, UpdatedAt = Time 1030 0, CompletedAt = Some (Time 1020 0)\<rparr>]
   \<and> list_all task_inv (fst (run (example_world [])
          [CallCreate ''Buy milk'' '''' ''low'', CallComplete ''task-a'',
           CallUpdate ''task-a'' ''Buy oat milk'' '''' '''', CallGet ''task-a'']))
   \<and> store_inv (snd (run (example_world [])
          [CallCreate ''Buy milk'' '''' ''low'', CallComplete ''task-a'',
           CallUpdate ''task-a'' ''Buy oat milk'' '''' '''', CallGet ''task-a'']))"
proof -
  have h: "store_inv (example_world [])"
    by (simp add: store_inv_def)
  have e: "fst (run (example_world [])
          [CallCreate ''Buy milk'' '''' ''low'', CallComplete ''task-a'',
           CallUpdate ''task-a'' ''Buy oat milk'' '''' '''', CallGet ''task-a''])
     = [\<lparr>ID = ''task-a'', Title = ''Buy milk'', Description = '''', Status = ''pending'',
         Priority = ''low'', CreatedAt = Time 1000 0, UpdatedAt = Time 1010 0, CompletedAt = None\<rparr>,
        \<lparr>ID = ''task-a'', Title = ''Buy milk'', Description = '''', Status = ''completed'',
         Priority = ''low'', CreatedAt = Time 1000 0, UpdatedAt = Time 1020 0, CompletedAt = Some (Time 1020 0)\<rparr>,
        \<lparr>ID = ''task-a'', Title = ''Buy oat milk'', Description = '''', Status = ''completed'',
         Priority = ''low'', CreatedAt = Time 1000 0, UpdatedAt = Time 1030 0, CompletedAt = Some (Time 1020 0)\<rparr>,
        \<lparr>ID = ''task-a'', Title = ''Buy oat milk'', Description = '''', Status = ''completed'',
         Priority = ''low'', CreatedAt = Time 1000 0, UpdatedAt = Time 1030 0, CompletedAt = Some (Time 1020 0)\<rparr>]"
    by (simp add: service_defs store_defs constant_defs example_defs example_world_def Let_def
        send_def)
  from completed_at_iff_completed [OF h] h e show ?thesis
    unfolding list_all_iff by blast
qed

section \<open>Migrations are idempotent\<close>

text \<open>Whatever the database, \<^verbatim>\<open>runMigrations\<close> succeeds and leaves it migrated (lemma
  \<open>runMigrations_runs\<close> below); on a migrated database it changes nothing.\<close>

lemma apply_migrations_applied:
  assumes "set vs \<subseteq> appliedMigrations"
  shows "apply_migrations w appliedMigrations vs = (None, w)"
  using assms by (induction vs) simp_all

lemma set_sort_versions: "set (sort (map fst migrations)) = set (map fst migrations)"
  by simp

lemma runMigrations_migrated:
  assumes "migrated (db w)"
  shows "runMigrations w = (None, send SelectVersions (send CreateMigrationsTable w))"
proof -
  from assms obtain rows where tbl: "migrations_tbl (db w) = Some rows"
    and all: "set (map fst migrations) \<subseteq> set (map version rows)"
    by (auto simp: migrated_def split: option.splits)
  let ?w0 = "send CreateMigrationsTable w"
  have same: "sql_create_migrations_table (db w) = db w"
    using tbl by (simp add: sql_create_migrations_table_def)
  have w1: "?w0\<lparr>db := sql_create_migrations_table (db ?w0)\<rparr> = ?w0"
    by (simp add: same send_def)
  have got: "getAppliedMigrations ?w0 = (Inr (set (map version rows)), send SelectVersions ?w0)"
    using tbl by (simp add: getAppliedMigrations_def sql_select_versions_def Let_def)
  have skip: "apply_migrations (send SelectVersions ?w0) (set (map version rows))
                (sort (map fst migrations)) = (None, send SelectVersions ?w0)"
    using all by (intro apply_migrations_applied) (simp only: set_sort_versions)
  show ?thesis
    unfolding runMigrations_def Let_def w1 using got skip by simp
qed

lemma runMigrations_runs:
  "fst (runMigrations w) = None \<and> migrated (db (snd (runMigrations w)))"
proof (cases "migrated (db w)")
  case True
  then show ?thesis
    by (simp add: runMigrations_migrated)
next
  case False
  let ?w0 = "send CreateMigrationsTable w"
  let ?w1 = "?w0\<lparr>db := sql_create_migrations_table (db ?w0)\<rparr>"
  obtain rows where tbl: "migrations_tbl (db ?w1) = Some rows"
    by (cases "migrations_tbl (db w)") (simp_all add: sql_create_migrations_table_def)
  have not: "''001_create_tasks_table'' \<notin> set (map version rows)"
  proof
    assume "''001_create_tasks_table'' \<in> set (map version rows)"
    moreover have "migrations_tbl (db w) = Some rows"
      using tbl calculation
      by (cases "migrations_tbl (db w)") (simp_all add: sql_create_migrations_table_def)
    ultimately have "migrated (db w)"
      by (simp add: migrated_def migrations_def)
    with False show False by simp
  qed
  have got: "getAppliedMigrations ?w1 = (Inr (set (map version rows)), send SelectVersions ?w1)"
    using tbl by (simp add: getAppliedMigrations_def sql_select_versions_def Let_def)
  show ?thesis
    unfolding runMigrations_def Let_def
    using got not tbl
    by (cases "tasks_tbl (db w)")
      (auto simp: migrations_def migrated_def sql_insert_migration_def time_Now_def Let_def
        split: option.splits)
qed


lemma concat_replicate_snoc:
  "concat (replicate (Suc n) xs) = concat (replicate n xs) @ xs"
  by (induction n) simp_all

text \<open>
  Claim C6.  On a migrated database (one whose ledger records every version)
  \<^verbatim>\<open>runMigrations\<close> returns nil and sends two statements only, the
  \<^verbatim>\<open>CREATE TABLE IF NOT EXISTS migrations\<close> and the \<^verbatim>\<open>SELECT\<close> of the ledger: no transaction is
  begun, no migration script is executed and no version is recorded again.  The database
  (the \<^verbatim>\<open>tasks\<close> table, its indexes, the ledger) is left exactly as it was and the clock
  is not read.  The same holds for every further run, any number of times.
\<close>

theorem runMigrations_idempotent:
  assumes "migrated (db w)"
  shows "runMigrations w = (None, send SelectVersions (send CreateMigrationsTable w))
       \<and> db (snd (runMigrations w)) = db w
       \<and> ticks (snd (runMigrations w)) = ticks w
       \<and> (\<forall>n. fst (runMigrations (((\<lambda>v. snd (runMigrations v)) ^^ n) w)) = None
              \<and> db (((\<lambda>v. snd (runMigrations v)) ^^ n) w) = db w
              \<and> trace (((\<lambda>v. snd (runMigrations v)) ^^ n) w)
                  = trace w @ concat (replicate n [CreateMigrationsTable, SelectVersions]))"
proof -
  have once: "runMigrations v = (None, send SelectVersions (send CreateMigrationsTable v))"
    if "migrated (db v)" for v
    using that by (rule runMigrations_migrated)
  have iter: "db (((\<lambda>v. snd (runMigrations v)) ^^ n) w) = db w
              \<and> trace (((\<lambda>v. snd (runMigrations v)) ^^ n) w)
                  = trace w @ concat (replicate n [CreateMigrationsTable, SelectVersions])" for n
  proof (induction n)
    case 0
    then show ?case by simp
  next
    case (Suc n)
    let ?v = "((\<lambda>v. snd (runMigrations v)) ^^ n) w"
    have "migrated (db ?v)"
      using Suc assms by simp
    then have "snd (runMigrations ?v) = send SelectVersions (send CreateMigrationsTable ?v)"
      by (simp add: once)
    then show ?case
      using Suc by (simp add: concat_replicate_snoc del: replicate.simps)
  qed
  have "fst (runMigrations (((\<lambda>v. snd (runMigrations v)) ^^ n) w)) = None" for n
  proof -
    have "migrated (db (((\<lambda>v. snd (runMigrations v)) ^^ n) w))"
      using iter [of n] assms by simp
    then show ?thesis
      by (simp add: once)
  qed
  then show ?thesis
    using once [OF assms] iter by simp
qed

theorem runMigrations_idempotent_witness:
  "fst (runMigrations fresh_world) = None
   \<and> migrated (db (snd (runMigrations fresh_world)))
   \<and> tasks_tbl (db (snd (runMigrations fresh_world))) = Some []
   \<and> map fst (indexes (db (snd (runMigrations fresh_world))))
       = [''idx_tasks_status'', ''idx_tasks_priority'', ''idx_tasks_created_at'']
   \<and> runMigrations (snd (runMigrations fresh_world))
       = (None, send SelectVersions (send CreateMigrationsTable (snd (runMigrations fresh_world))))
   \<and> db (snd (runMigrations (snd (runMigrations fresh_world))))
       = db (snd (runMigrations fresh_world))
   \<and> trace (snd (runMigrations (snd (runMigrations fresh_world))))
       = [CreateMigrationsTable, SelectVersions, BeginTx,
          ExecMigration ''001_create_tasks_table'', InsertMigration ''001_create_tasks_table'',
          Commit, CreateMigrationsTable, SelectVersions]"
proof -
  have first: "runMigrations fresh_world =
     (None, \<lparr>db = \<lparr>tasks_tbl = Some [],
             indexes = [(''idx_tasks_status'', ''status''),
                        (''idx_tasks_priority'', ''priority''),
                        (''idx_tasks_created_at'', ''created_at'')],
             migrations_tbl = Some [\<lparr>version = ''001_create_tasks_table'', applied_at = Time 1000 0\<rparr>]\<rparr>,
      clock = example_clock, ticks = 1, uuids = example_uuids, drawn = 0,
      trace = [CreateMigrationsTable, SelectVersions, BeginTx,
          ExecMigration ''001_create_tasks_table'', InsertMigration ''001_create_tasks_table'',
          Commit]\<rparr>)"
    by (simp add: runMigrations_def getAppliedMigrations_def sql_create_migrations_table_def
        sql_select_versions_def sql_insert_migration_def migrations_def fresh_world_def
        send_def time_Now_def example_clock_def Let_def)
  have h: "migrated (db (snd (runMigrations fresh_world)))"
    by (simp add: first migrated_def migrations_def)
  from runMigrations_idempotent [OF h] h show ?thesis
    by (simp add: first)
qed

end
